theory Spec2Isabelle
  imports Main "HOL-Library.Sublist"
begin

section \<open>The readiness poller (get\_vm\_ip.py, check\_vm\_status.py)\<close>

subsection \<open>Data: the platform's JSON answer and the result record\<close>

text \<open>
  The scripts read four places of the JSON document that the platform returns for a VM:
  \<^verbatim>\<open>spec.name\<close>, \<^verbatim>\<open>spec.resources.power_state\<close>,
  \<^verbatim>\<open>status.resources.nic_list\<close> and, in each interface, \<^verbatim>\<open>ip_endpoint_list\<close>
  with the keys \<^verbatim>\<open>ip\<close> and \<^verbatim>\<open>type\<close>. Every read is a \<^verbatim>\<open>dict.get\<close>
  with a default, so a key is either present (\<open>Some\<close>) or missing (\<open>None\<close>);
  a missing list reads as the empty list. Values are taken to be strings.
\<close>

record ip_endpoint =
  ip :: "string option"
  ip_type :: "string option"

record nic =
  ip_endpoint_list :: "ip_endpoint list"

record vm_data =
  spec_name :: "string option"
  spec_power_state :: "string option"
  status_nic_list :: "nic list"

text \<open>
  \<^verbatim>\<open>requests.get\<close> either raises a \<^verbatim>\<open>RequestException\<close> (the transport failed)
  or returns a response with a status code and a body.
\<close>

datatype response = RequestException | Response int vm_data

text \<open>
  The remote service is outside the program. It is a function from the number of the
  request within the session (counted from 0) to the answer that request gets.
\<close>

type_synonym remote = "nat \<Rightarrow> response"

text \<open>The dictionary that both scripts build and dump to \<^verbatim>\<open>temp/vm-details.json\<close>.\<close>

record vm_details =
  vm_uuid :: string
  vm_name :: string
  ip_address :: "string option"
  power_state :: string
  status :: string
  message :: "string option"
  timestamp :: "string option"

text \<open>What the scripts do to the outside world, in the order they do it.\<close>

datatype event =
    HttpGet string
  | Sleep int
  | Getpass string
  | WriteFile string vm_details

text \<open>\<^verbatim>\<open>d.get(key, default)\<close> on a key that is present or missing.\<close>

definition get_or :: "'a option \<Rightarrow> 'a \<Rightarrow> 'a" where
  "get_or v d = (case v of None \<Rightarrow> d | Some x \<Rightarrow> x)"

text \<open>Python's truth value of \<^verbatim>\<open>ip_endpoint.get('ip')\<close>: \<^verbatim>\<open>None\<close> and \<^verbatim>\<open>''\<close> are false.\<close>

definition truthy :: "string option \<Rightarrow> bool" where
  "truthy v = (case v of None \<Rightarrow> False | Some s \<Rightarrow> s \<noteq> [])"

definition vm_url :: "string \<Rightarrow> string \<Rightarrow> string" where
  "vm_url pc_ip uuid = (''https://'' @ pc_ip @ '':9440/api/nutanix/v3'') @ ''/vms/'' @ uuid"

subsection \<open>get\_vm\_ip.py: get\_vm\_ip\_address\<close>

text \<open>
  The two nested \<^verbatim>\<open>for\<close> loops over \<^verbatim>\<open>nic_list\<close> and \<^verbatim>\<open>ip_endpoint_list\<close>
  (lines 56 to 70): the first endpoint with a true \<^verbatim>\<open>ip\<close> and \<^verbatim>\<open>type == 'ASSIGNED'\<close>
  makes the function return.
\<close>

fun scan_endpoints :: "ip_endpoint list \<Rightarrow> string option" where
  "scan_endpoints [] = None"
| "scan_endpoints (e # es) =
     (if truthy (ip e) \<and> get_or (ip_type e) ''UNKNOWN'' = ''ASSIGNED''
      then ip e else scan_endpoints es)"

fun scan_nics :: "nic list \<Rightarrow> string option" where
  "scan_nics [] = None"
| "scan_nics (n # ns) =
     (case scan_endpoints (ip_endpoint_list n) of
        Some a \<Rightarrow> Some a
      | None \<Rightarrow> scan_nics ns)"

text \<open>
  The body of the \<^verbatim>\<open>try\<close> of one attempt (lines 33 to 82), given the answer to its
  request. It yields the record to return, if the attempt ends the function, and the
  new value of the local variable \<^verbatim>\<open>vm_data\<close>, which is unbound (\<open>None\<close>) until the
  first answer with status 200 and keeps its value over later attempts.
\<close>

definition attempt_body ::
  "string \<Rightarrow> response \<Rightarrow> vm_data option \<Rightarrow> vm_details option \<times> vm_data option" where
  "attempt_body uuid r local_vm_data =
     (case r of
        RequestException \<Rightarrow> (None, local_vm_data)
      | Response status_code body \<Rightarrow>
          if status_code = 200 then
            (case scan_nics (status_nic_list body) of
               Some a \<Rightarrow>
                 (Some \<lparr>vm_uuid = uuid,
                        vm_name = get_or (spec_name body) ''Unknown'',
                        ip_address = Some a,
                        power_state = get_or (spec_power_state body) ''UNKNOWN'',
                        status = ''SUCCESS'',
                        message = None, timestamp = None\<rparr>,
                  Some body)
             | None \<Rightarrow> (None, Some body))
          else (None, local_vm_data))"

text \<open>The record returned after the loop (lines 88 to 95).\<close>

definition timeout_record :: "string \<Rightarrow> vm_data option \<Rightarrow> vm_details" where
  "timeout_record uuid local_vm_data =
     \<lparr>vm_uuid = uuid,
      vm_name = (case local_vm_data of
                   Some d \<Rightarrow> get_or (spec_name d) ''Unknown'' | None \<Rightarrow> ''Unknown''),
      ip_address = None,
      power_state = (case local_vm_data of
                       Some d \<Rightarrow> get_or (spec_power_state d) ''UNKNOWN'' | None \<Rightarrow> ''UNKNOWN''),
      status = ''TIMEOUT'',
      message = None, timestamp = None\<rparr>"

text \<open>
  \<^verbatim>\<open>for attempt in range(max_attempts)\<close>: the loop runs over the attempts still to
  make. Each attempt sends one request; an attempt that does not return sleeps 30
  seconds unless it is the last one (\<^verbatim>\<open>attempt < max_attempts - 1\<close>).
\<close>

fun attempts_loop ::
  "remote \<Rightarrow> string \<Rightarrow> string \<Rightarrow> int \<Rightarrow> nat list \<Rightarrow> vm_data option \<Rightarrow> vm_details \<times> event list"
where
  "attempts_loop rem url uuid max_attempts [] local_vm_data =
     (timeout_record uuid local_vm_data, [])"
| "attempts_loop rem url uuid max_attempts (attempt # rest) local_vm_data =
     (case attempt_body uuid (rem attempt) local_vm_data of
        (Some result, _) \<Rightarrow> (result, [HttpGet url])
      | (None, local_vm_data') \<Rightarrow>
          (let (result, evs) = attempts_loop rem url uuid max_attempts rest local_vm_data'
           in (result,
               HttpGet url
                 # (if int attempt < max_attempts - 1 then [Sleep 30] else []) @ evs)))"

definition get_vm_ip_address ::
  "remote \<Rightarrow> string \<Rightarrow> string \<Rightarrow> string \<Rightarrow> string \<Rightarrow> int \<Rightarrow> vm_details \<times> event list" where
  "get_vm_ip_address rem pc_ip username password uuid max_wait_minutes =
     (let max_attempts = max_wait_minutes * 2
      in attempts_loop rem (vm_url pc_ip uuid) uuid max_attempts
           [0 ..< nat max_attempts] None)"

subsection \<open>check\_vm\_status.py: check\_vm\_status\<close>

text \<open>
  The single-shot check sends one request. Its loops (lines 53 to 85) accept an endpoint
  with a true \<^verbatim>\<open>ip\<close> whose \<^verbatim>\<open>type\<close> is in \<^verbatim>\<open>['ASSIGNED', 'LEARNED']\<close>, write
  the SUCCESS record and return \<^verbatim>\<open>True\<close>; with no such endpoint the PENDING record is
  written and the result is \<^verbatim>\<open>False\<close>. Any other status code and a transport failure
  give \<^verbatim>\<open>False\<close> and write nothing.
\<close>

fun check_endpoints :: "ip_endpoint list \<Rightarrow> string option" where
  "check_endpoints [] = None"
| "check_endpoints (e # es) =
     (if truthy (ip e) then
        (if get_or (ip_type e) ''UNKNOWN'' \<in> set [''ASSIGNED'', ''LEARNED'']
         then ip e else check_endpoints es)
      else check_endpoints es)"

fun check_nics :: "nic list \<Rightarrow> string option" where
  "check_nics [] = None"
| "check_nics (n # ns) =
     (case check_endpoints (ip_endpoint_list n) of
        Some a \<Rightarrow> Some a
      | None \<Rightarrow> check_nics ns)"

definition check_vm_status ::
  "remote \<Rightarrow> string \<Rightarrow> string \<Rightarrow> string \<Rightarrow> string \<Rightarrow> bool \<times> event list" where
  "check_vm_status rem pc_ip username password uuid =
     (case rem 0 of
        RequestException \<Rightarrow> (False, [HttpGet (vm_url pc_ip uuid)])
      | Response status_code body \<Rightarrow>
          if status_code = 200 then
            (case check_nics (status_nic_list body) of
               Some a \<Rightarrow>
                 (True,
                  [HttpGet (vm_url pc_ip uuid),
                   WriteFile ''temp/vm-details.json''
                     \<lparr>vm_uuid = uuid,
                      vm_name = get_or (spec_name body) ''Unknown'',
                      ip_address = Some a,
                      power_state = get_or (spec_power_state body) ''UNKNOWN'',
                      status = ''SUCCESS'',
                      message = None, timestamp = Some ''null''\<rparr>])
             | None \<Rightarrow>
                 (False,
                  [HttpGet (vm_url pc_ip uuid),
                   WriteFile ''temp/vm-details.json''
                     \<lparr>vm_uuid = uuid,
                      vm_name = get_or (spec_name body) ''Unknown'',
                      ip_address = None,
                      power_state = get_or (spec_power_state body) ''UNKNOWN'',
                      status = ''PENDING'',
                      message = Some ''VM powered on, waiting for IP assignment'',
                      timestamp = None\<rparr>]))
          else (False, [HttpGet (vm_url pc_ip uuid)]))"

subsection \<open>The two command lines\<close>

text \<open>
  Both \<^verbatim>\<open>main\<close> functions take the argument vector, the deployment-config file
  (absent, or the JSON object it holds, as a list of key and value), the password typed
  at the \<^verbatim>\<open>getpass\<close> prompt and the remote. They yield the exit code of the
  process (\<^verbatim>\<open>sys.exit(1)\<close> gives 1, falling off the end gives 0) and the events in
  order. \<^verbatim>\<open>config['pc_ip']\<close> and \<^verbatim>\<open>config['username']\<close> raise \<^verbatim>\<open>KeyError\<close> on a
  missing key, which the handler turns into exit code 1.
\<close>

type_synonym json_object = "(string \<times> string) list"

definition get_vm_ip_main ::
  "string list \<Rightarrow> json_object option \<Rightarrow> string \<Rightarrow> remote \<Rightarrow> int \<times> event list" where
  "get_vm_ip_main argv config_file typed_password rem =
     (if length argv \<noteq> 2 then (1, [])
      else case config_file of
        None \<Rightarrow> (1, [])
      | Some config \<Rightarrow>
          (case map_of config ''pc_ip'' of
             None \<Rightarrow> (1, [])
           | Some pc_ip \<Rightarrow>
               (case map_of config ''username'' of
                  None \<Rightarrow> (1, [])
                | Some username \<Rightarrow>
                    (let (result, evs) =
                           get_vm_ip_address rem pc_ip username typed_password (argv ! 1) 10
                     in (0, Getpass (''Enter password for '' @ username @ '': '')
                              # evs @ [WriteFile ''temp/vm-details.json'' result])))))"

definition check_vm_status_main ::
  "string list \<Rightarrow> json_object option \<Rightarrow> string \<Rightarrow> remote \<Rightarrow> int \<times> event list" where
  "check_vm_status_main argv config_file typed_password rem =
     (if length argv \<noteq> 2 then (1, [])
      else case config_file of
        None \<Rightarrow> (1, [])
      | Some config \<Rightarrow>
          (case map_of config ''pc_ip'' of
             None \<Rightarrow> (1, [])
           | Some pc_ip \<Rightarrow>
               (case map_of config ''username'' of
                  None \<Rightarrow> (1, [])
                | Some username \<Rightarrow>
                    (let (success, evs) =
                           check_vm_status rem pc_ip username typed_password (argv ! 1)
                     in (0, Getpass (''Enter password for '' @ username @ '': '') # evs)))))"

subsection \<open>What the claims about the poller speak of\<close>

text \<open>
  An answer carries an address of category ASSIGNED when some endpoint of some interface
  has a non-empty \<^verbatim>\<open>ip\<close> and the \<^verbatim>\<open>type\<close> ASSIGNED; the poller sees it
  only in an answer with status 200.
\<close>

definition has_assigned_address :: "vm_data \<Rightarrow> bool" where
  "has_assigned_address d =
     (\<exists>n \<in> set (status_nic_list d). \<exists>e \<in> set (ip_endpoint_list n).
        ip e \<noteq> None \<and> ip e \<noteq> Some [] \<and> ip_type e = Some ''ASSIGNED'')"

definition returns_assigned :: "response \<Rightarrow> bool" where
  "returns_assigned r =
     (case r of RequestException \<Rightarrow> False
      | Response code d \<Rightarrow> code = 200 \<and> has_assigned_address d)"

text \<open>
  The trace of \<open>n\<close> requests with a sleep of 30 between consecutive ones and none
  after the last.
\<close>

fun expected_trace :: "string \<Rightarrow> nat \<Rightarrow> event list" where
  "expected_trace url 0 = []"
| "expected_trace url (Suc 0) = [HttpGet url]"
| "expected_trace url (Suc (Suc n)) = HttpGet url # Sleep 30 # expected_trace url (Suc n)"


text \<open>
  The bodies of the answers with status 200 among the requests \<open>ks\<close>, in order, and
  the most recent of them among the first \<open>n\<close> requests.
\<close>

definition ok_bodies :: "remote \<Rightarrow> nat list \<Rightarrow> vm_data list" where
  "ok_bodies rem ks =
     concat (map (\<lambda>k. case rem k of
                         RequestException \<Rightarrow> []
                       | Response code d \<Rightarrow> if code = 200 then [d] else []) ks)"

definition most_recent_ok :: "remote \<Rightarrow> nat \<Rightarrow> vm_data option" where
  "most_recent_ok rem n =
     (if ok_bodies rem [0 ..< n] = [] then None else Some (last (ok_bodies rem [0 ..< n])))"

text \<open>
  The deployment-config file is unusable when it is absent or lacks one of the keys
  \<^verbatim>\<open>pc_ip\<close> and \<^verbatim>\<open>username\<close>.
\<close>

definition config_unusable :: "json_object option \<Rightarrow> bool" where
  "config_unusable config_file =
     (case config_file of
        None \<Rightarrow> True
      | Some config \<Rightarrow> ''pc_ip'' \<notin> fst ` set config \<or> ''username'' \<notin> fst ` set config)"

definition is_network_call :: "event \<Rightarrow> bool" where
  "is_network_call e = (case e of HttpGet _ \<Rightarrow> True | _ \<Rightarrow> False)"


definition learned_vm :: vm_data where
  "learned_vm =
     \<lparr>spec_name = Some ''win-01'', spec_power_state = Some ''ON'',
      status_nic_list =
        [\<lparr>ip_endpoint_list = [\<lparr>ip = Some ''10.0.0.7'', ip_type = Some ''LEARNED''\<rparr>]\<rparr>]\<rparr>"

definition learned_remote :: remote where
  "learned_remote = (\<lambda>_. Response 200 learned_vm)"

definition booting_remote :: remote where
  "booting_remote =
     (\<lambda>k. if k = 0
          then Response 200 \<lparr>spec_name = Some ''win-01'', spec_power_state = Some ''OFF'',
                 status_nic_list = []\<rparr>
          else if k = 1
          then Response 200 \<lparr>spec_name = Some ''win-01-renamed'', spec_power_state = Some ''ON'',
                 status_nic_list = []\<rparr>
          else if k = 2 then Response 503 \<lparr>spec_name = None, spec_power_state = None, status_nic_list = []\<rparr>
          else RequestException)"

subsection \<open>The scan and the loop\<close>

lemma endpoint_test:
  "(truthy (ip e) \<and> get_or (ip_type e) ''UNKNOWN'' = ''ASSIGNED'') =
   (ip e \<noteq> None \<and> ip e \<noteq> Some [] \<and> ip_type e = Some ''ASSIGNED'')"
  by (cases "ip e"; cases "ip_type e") (simp_all add: truthy_def get_or_def)

lemma scan_endpoints_None:
  "(scan_endpoints es = None) =
   (\<not> (\<exists>e \<in> set es. ip e \<noteq> None \<and> ip e \<noteq> Some [] \<and> ip_type e = Some ''ASSIGNED''))"
  by (induction es) (simp_all add: endpoint_test del: not_None_eq)

lemma scan_nics_None:
  "(scan_nics ns = None) = (\<forall>n \<in> set ns. scan_endpoints (ip_endpoint_list n) = None)"
  by (induction ns) (auto split: option.splits)

lemma scan_nics_None_iff: "(scan_nics (status_nic_list d) = None) = (\<not> has_assigned_address d)"
  unfolding scan_nics_None scan_endpoints_None has_assigned_address_def by blast

lemma attempt_body_no_return:
  "\<not> returns_assigned r \<Longrightarrow> fst (attempt_body uuid r l) = None"
proof (cases r)
  case RequestException
  then show ?thesis by (simp add: attempt_body_def)
next
  case (Response code d)
  assume "\<not> returns_assigned r"
  with Response have "code = 200 \<Longrightarrow> scan_nics (status_nic_list d) = None"
    by (simp add: returns_assigned_def scan_nics_None_iff)
  with Response show ?thesis by (simp add: attempt_body_def)
qed

lemma loop_timeout:
  "\<forall>k \<in> set xs. \<not> returns_assigned (rem k) \<Longrightarrow>
   status (fst (attempts_loop rem url uuid m xs l)) = ''TIMEOUT'' \<and>
   snd (attempts_loop rem url uuid m xs l) =
     concat (map (\<lambda>k. HttpGet url # (if int k < m - 1 then [Sleep 30] else [])) xs)"
proof (induction xs arbitrary: l)
  case Nil
  then show ?case by (simp add: timeout_record_def)
next
  case (Cons a xs)
  then have "fst (attempt_body uuid (rem a) l) = None" by (simp add: attempt_body_no_return)
  then obtain l' where "attempt_body uuid (rem a) l = (None, l')" by (cases "attempt_body uuid (rem a) l") auto
  with Cons show ?case by (simp add: case_prod_beta)
qed

lemma trace_shape:
  "concat (map (\<lambda>k. HttpGet url # (if k < a + n then [Sleep 30] else [])) [a ..< Suc (a + n)])
   = expected_trace url (Suc n)"
proof (induction n arbitrary: a)
  case 0 then show ?case by simp
next
  case (Suc n)
  have "[a ..< Suc (a + Suc n)] = a # [Suc a ..< Suc (Suc a + n)]" by (simp add: upt_conv_Cons)
  then show ?case using Suc[of "Suc a"] by simp
qed

lemma count_gets: "length (filter (\<lambda>e. e = HttpGet url) (expected_trace url n)) = n"
  by (induction url n rule: expected_trace.induct) auto

lemma count_sleeps: "filter (\<lambda>e. e \<noteq> HttpGet url) (expected_trace url n) = replicate (n - 1) (Sleep 30)"
  by (induction url n rule: expected_trace.induct) auto

text \<open>
  Claim C3. For every \<open>max_wait_minutes \<ge> 1\<close> and every remote that never returns an
  address of category ASSIGNED, the poller sends exactly \<open>max_wait_minutes * 2\<close>
  requests, sleeps 30 between consecutive requests (and not after the last), and returns
  a record with status TIMEOUT.
\<close>

theorem poller_timeout_after_all_attempts:
  assumes "1 \<le> max_wait_minutes" and "\<forall>k. \<not> returns_assigned (rem k)"
  shows "status (fst (get_vm_ip_address rem pc_ip username password uuid max_wait_minutes)) = ''TIMEOUT''
       \<and> snd (get_vm_ip_address rem pc_ip username password uuid max_wait_minutes)
           = expected_trace (vm_url pc_ip uuid) (nat (max_wait_minutes * 2))
       \<and> length (filter (\<lambda>e. e = HttpGet (vm_url pc_ip uuid))
             (snd (get_vm_ip_address rem pc_ip username password uuid max_wait_minutes)))
           = nat (max_wait_minutes * 2)
       \<and> filter (\<lambda>e. e \<noteq> HttpGet (vm_url pc_ip uuid))
             (snd (get_vm_ip_address rem pc_ip username password uuid max_wait_minutes))
           = replicate (nat (max_wait_minutes * 2) - 1) (Sleep 30)"
proof -
  let ?m = "max_wait_minutes * 2"
  obtain n where n: "nat ?m = Suc n" using assms(1) by (cases "nat ?m") auto
  have m: "?m = int n + 1" using n assms(1) by linarith
  have "\<forall>k \<in> set [0 ..< nat ?m]. \<not> returns_assigned (rem k)" using assms(2) by simp
  from loop_timeout[OF this, of "vm_url pc_ip uuid" uuid ?m None]
  have st: "status (fst (attempts_loop rem (vm_url pc_ip uuid) uuid ?m [0 ..< nat ?m] None)) = ''TIMEOUT''"
   and tr: "snd (attempts_loop rem (vm_url pc_ip uuid) uuid ?m [0 ..< nat ?m] None) =
     concat (map (\<lambda>k. HttpGet (vm_url pc_ip uuid) # (if int k < ?m - 1 then [Sleep 30] else [])) [0 ..< nat ?m])"
    by blast+
  have "concat (map (\<lambda>k. HttpGet (vm_url pc_ip uuid) # (if int k < ?m - 1 then [Sleep 30] else [])) [0 ..< nat ?m])
      = expected_trace (vm_url pc_ip uuid) (Suc n)"
  proof -
    have "(\<lambda>k. HttpGet (vm_url pc_ip uuid) # (if int k < ?m - 1 then [Sleep 30] else []))
        = (\<lambda>k. HttpGet (vm_url pc_ip uuid) # (if k < 0 + n then [Sleep 30] else []))"
      by (simp add: m)
    then show ?thesis using trace_shape[of "vm_url pc_ip uuid" 0 n] by (simp only: n) simp
  qed
    with st tr have
    "status (fst (get_vm_ip_address rem pc_ip username password uuid max_wait_minutes)) = ''TIMEOUT''"
    "snd (get_vm_ip_address rem pc_ip username password uuid max_wait_minutes)
       = expected_trace (vm_url pc_ip uuid) (nat (max_wait_minutes * 2))"
    by (simp_all add: get_vm_ip_address_def Let_def n)
  then show ?thesis by (simp add: count_gets count_sleeps)
qed

theorem poller_timeout_after_all_attempts_witness:
  "(1::int) \<le> 1
   \<and> (\<forall>k. \<not> returns_assigned
          ((\<lambda>_. Response 200 \<lparr>spec_name = Some ''win'', spec_power_state = Some ''ON'',
              status_nic_list = [\<lparr>ip_endpoint_list = [\<lparr>ip = Some ''10.0.0.7'', ip_type = Some ''LEARNED''\<rparr>]\<rparr>]\<rparr>) k))
   \<and> snd (get_vm_ip_address
          (\<lambda>_. Response 200 \<lparr>spec_name = Some ''win'', spec_power_state = Some ''ON'',
              status_nic_list = [\<lparr>ip_endpoint_list = [\<lparr>ip = Some ''10.0.0.7'', ip_type = Some ''LEARNED''\<rparr>]\<rparr>]\<rparr>)
          ''pc'' ''admin'' ''pw'' ''u1'' 1)
       = [HttpGet (vm_url ''pc'' ''u1''), Sleep 30, HttpGet (vm_url ''pc'' ''u1'')]"
  using poller_timeout_after_all_attempts [of 1
      "\<lambda>_. Response 200 \<lparr>spec_name = Some ''win'', spec_power_state = Some ''ON'',
              status_nic_list = [\<lparr>ip_endpoint_list = [\<lparr>ip = Some ''10.0.0.7'', ip_type = Some ''LEARNED''\<rparr>]\<rparr>]\<rparr>"
      "''pc''" "''admin''" "''pw''" "''u1''"]
  by (simp add: returns_assigned_def has_assigned_address_def numeral_2_eq_2)



lemma attempt_body_local:
  "attempt_body uuid r l = (None, l') \<Longrightarrow>
   l' = (case r of RequestException \<Rightarrow> l | Response code d \<Rightarrow> if code = 200 then Some d else l)"
  by (auto simp: attempt_body_def split: response.splits if_splits option.splits)

lemma attempt_body_success:
  "attempt_body uuid r l = (Some res, l') \<Longrightarrow> status res = ''SUCCESS''"
  by (auto simp: attempt_body_def split: response.splits if_splits option.splits)

lemma ok_bodies_Cons:
  "ok_bodies rem (a # xs) =
     (case rem a of RequestException \<Rightarrow> []
      | Response code d \<Rightarrow> if code = 200 then [d] else []) @ ok_bodies rem xs"
  by (simp add: ok_bodies_def)

lemma loop_timeout_record:
  "status (fst (attempts_loop rem url uuid m xs l)) = ''TIMEOUT'' \<Longrightarrow>
   fst (attempts_loop rem url uuid m xs l) =
     timeout_record uuid (if ok_bodies rem xs = [] then l else Some (last (ok_bodies rem xs)))"
proof (induction xs arbitrary: l)
  case Nil then show ?case by (simp add: ok_bodies_def)
next
  case (Cons a xs)
  show ?case
  proof (cases "attempt_body uuid (rem a) l")
    case (Pair ret l')
    show ?thesis
    proof (cases ret)
      case (Some r)
      with Pair Cons.prems attempt_body_success[of uuid "rem a" l r l'] show ?thesis by simp
    next
      case None
      with Pair have l': "l' = (case rem a of RequestException \<Rightarrow> l | Response code d \<Rightarrow> if code = 200 then Some d else l)"
        using attempt_body_local by blast
      from None Pair Cons.prems have "status (fst (attempts_loop rem url uuid m xs l')) = ''TIMEOUT''"
        by (simp add: case_prod_beta)
      from Cons.IH[OF this] None Pair have
        "fst (attempts_loop rem url uuid m (a # xs) l) =
          timeout_record uuid (if ok_bodies rem xs = [] then l' else Some (last (ok_bodies rem xs)))"
        by (simp add: case_prod_beta)
      moreover have "(if ok_bodies rem xs = [] then l' else Some (last (ok_bodies rem xs)))
          = (if ok_bodies rem (a # xs) = [] then l else Some (last (ok_bodies rem (a # xs))))"
        using l' by (cases "rem a") (simp_all add: ok_bodies_Cons)
      ultimately show ?thesis by simp
    qed
  qed
qed


lemma upt_2: "[0 ..< 2] = [0, 1::nat]"
  by (simp add: upt_rec)

lemma upt_4: "[0 ..< 4] = [0, 1, 2, 3::nat]"
  by (simp add: upt_rec)

lemma loop_success:
  "\<exists>k \<in> set xs. returns_assigned (rem k) \<Longrightarrow>
   status (fst (attempts_loop rem url uuid m xs l)) = ''SUCCESS''"
proof (induction xs arbitrary: l)
  case Nil then show ?case by simp
next
  case (Cons a xs)
  show ?case
  proof (cases "attempt_body uuid (rem a) l")
    case (Pair ret l')
    show ?thesis
    proof (cases ret)
      case (Some r)
      with Pair attempt_body_success[of uuid "rem a" l r l'] show ?thesis by simp
    next
      case None
      with Pair have "\<not> returns_assigned (rem a)"
        by (auto simp: attempt_body_def returns_assigned_def scan_nics_None_iff[symmetric]
                 split: response.splits if_splits option.splits)
      with Cons.prems have "\<exists>k \<in> set xs. returns_assigned (rem k)" by auto
      from Cons.IH[OF this, of l'] None Pair show ?thesis by (simp add: case_prod_beta)
    qed
  qed
qed

lemma poller_success_iff_assigned:
  "(status (fst (get_vm_ip_address rem pc_ip username password uuid m)) = ''SUCCESS'') =
   (\<exists>k < nat (m * 2). returns_assigned (rem k))"
proof (cases "\<exists>k < nat (m * 2). returns_assigned (rem k)")
  case True
  then have "\<exists>k \<in> set [0 ..< nat (m * 2)]. returns_assigned (rem k)" by auto
  from loop_success[OF this] True show ?thesis by (simp add: get_vm_ip_address_def Let_def)
next
  case False
  then have "\<forall>k \<in> set [0 ..< nat (m * 2)]. \<not> returns_assigned (rem k)" by simp
  from loop_timeout[OF this] False show ?thesis by (simp add: get_vm_ip_address_def Let_def)
qed

text \<open>
  Claim C1. The claim makes SUCCESS equivalent to an address of category ASSIGNED or
  LEARNED having been seen. The poller tests \<^verbatim>\<open>ip_type == 'ASSIGNED'\<close> only
  (\<open>poller_success_iff_assigned\<close>), while \<^verbatim>\<open>check_vm_status\<close> accepts both
  categories: on a VM whose only address is LEARNED the poller uses up its attempts and
  returns TIMEOUT without an address, and the single-shot check reports success.
\<close>

theorem poller_ignores_learned_address:
  "fst (get_vm_ip_address learned_remote ''pc'' ''admin'' ''pw'' ''u1'' 1) =
     \<lparr>vm_uuid = ''u1'', vm_name = ''win-01'', ip_address = None, power_state = ''ON'',
      status = ''TIMEOUT'', message = None, timestamp = None\<rparr>
   \<and> fst (check_vm_status learned_remote ''pc'' ''admin'' ''pw'' ''u1'') = True"
  by (simp add: get_vm_ip_address_def upt_2 attempt_body_def learned_remote_def learned_vm_def
        truthy_def get_or_def timeout_record_def check_vm_status_def)




text \<open>
  Claim C10. A record with status TIMEOUT has no address, and its name and power state
  are read (with the defaults \<^verbatim>\<open>Unknown\<close> and \<^verbatim>\<open>UNKNOWN\<close> for a missing key) from
  the most recent answer with status 200 of the session, or are the two defaults when
  no request was answered with status 200.
\<close>

theorem timeout_record_fields:
  assumes "status (fst (get_vm_ip_address rem pc_ip username password uuid m)) = ''TIMEOUT''"
  shows "ip_address (fst (get_vm_ip_address rem pc_ip username password uuid m)) = None
       \<and> vm_name (fst (get_vm_ip_address rem pc_ip username password uuid m)) =
           (case most_recent_ok rem (nat (m * 2)) of
              None \<Rightarrow> ''Unknown'' | Some d \<Rightarrow> get_or (spec_name d) ''Unknown'')
       \<and> power_state (fst (get_vm_ip_address rem pc_ip username password uuid m)) =
           (case most_recent_ok rem (nat (m * 2)) of
              None \<Rightarrow> ''UNKNOWN'' | Some d \<Rightarrow> get_or (spec_power_state d) ''UNKNOWN'')"
proof -
  from assms have "status (fst (attempts_loop rem (vm_url pc_ip uuid) uuid (m * 2) [0 ..< nat (m * 2)] None)) = ''TIMEOUT''"
    by (simp add: get_vm_ip_address_def Let_def)
  from loop_timeout_record[OF this]
  have "fst (get_vm_ip_address rem pc_ip username password uuid m) =
          timeout_record uuid (most_recent_ok rem (nat (m * 2)))"
    by (simp add: get_vm_ip_address_def Let_def most_recent_ok_def)
  then show ?thesis by (simp add: timeout_record_def split: option.splits)
qed

theorem timeout_record_fields_witness:
  "status (fst (get_vm_ip_address booting_remote ''pc'' ''admin'' ''pw'' ''u1'' 2)) = ''TIMEOUT''
   \<and> vm_name (fst (get_vm_ip_address booting_remote ''pc'' ''admin'' ''pw'' ''u1'' 2)) = ''win-01-renamed''
   \<and> power_state (fst (get_vm_ip_address booting_remote ''pc'' ''admin'' ''pw'' ''u1'' 2)) = ''ON''
   \<and> ip_address (fst (get_vm_ip_address booting_remote ''pc'' ''admin'' ''pw'' ''u1'' 2)) = None"
proof -
  have st: "status (fst (get_vm_ip_address booting_remote ''pc'' ''admin'' ''pw'' ''u1'' 2)) = ''TIMEOUT''"
    by (simp add: get_vm_ip_address_def upt_4 attempt_body_def booting_remote_def timeout_record_def)
  have mr: "most_recent_ok booting_remote 4 =
      Some \<lparr>spec_name = Some ''win-01-renamed'', spec_power_state = Some ''ON'', status_nic_list = []\<rparr>"
    by (simp add: most_recent_ok_def ok_bodies_def upt_4 booting_remote_def)
  show ?thesis
    using timeout_record_fields [OF st] st by (simp add: mr get_or_def)
qed

text \<open>
  Claim C8. With the deployment-config file absent, or lacking \<^verbatim>\<open>pc_ip\<close> or
  \<^verbatim>\<open>username\<close>, both command lines exit with a nonzero code and no request has
  been sent.
\<close>

theorem config_error_before_network:
  assumes "config_unusable config_file"
  shows "fst (get_vm_ip_main argv config_file pw rem) \<noteq> 0
       \<and> \<not> list_ex is_network_call (snd (get_vm_ip_main argv config_file pw rem))
       \<and> fst (check_vm_status_main argv config_file pw rem) \<noteq> 0
       \<and> \<not> list_ex is_network_call (snd (check_vm_status_main argv config_file pw rem))"
proof (cases config_file)
  case None
  then show ?thesis by (simp add: get_vm_ip_main_def check_vm_status_main_def)
next
  case (Some config)
  with assms have "map_of config ''pc_ip'' = None \<or> map_of config ''username'' = None"
    by (auto simp: config_unusable_def map_of_eq_None_iff)
  with Some show ?thesis
    by (auto simp: get_vm_ip_main_def check_vm_status_main_def split: option.splits)
qed

theorem config_error_before_network_witness:
  "config_unusable (Some [(''pc_ip'', ''10.38.19.9'')])
   \<and> fst (get_vm_ip_main [''get_vm_ip.py'', ''u1''] (Some [(''pc_ip'', ''10.38.19.9'')]) ''pw'' learned_remote) = 1
   \<and> snd (get_vm_ip_main [''get_vm_ip.py'', ''u1''] (Some [(''pc_ip'', ''10.38.19.9'')]) ''pw'' learned_remote) = []
   \<and> fst (check_vm_status_main [''check_vm_status.py'', ''u1''] None ''pw'' learned_remote) = 1"
proof -
  have h: "config_unusable (Some [(''pc_ip'', ''10.38.19.9'')])" by (simp add: config_unusable_def)
  show ?thesis
    using h config_error_before_network [OF h, of "[''get_vm_ip.py'', ''u1'']" "''pw''" learned_remote]
    by (simp add: get_vm_ip_main_def check_vm_status_main_def)
qed

section \<open>The output extractor (deploy\_vm\_automated\_v4.py)\<close>

subsection \<open>The identifier pattern and the search\<close>

text \<open>
  The pattern of \<^verbatim>\<open>extract_uuids_from_output\<close> (line 66) is a sequence of
  character classes of fixed width: \<^verbatim>\<open>[0-9a-f]\<close> (lowercase only; \<^verbatim>\<open>re.search\<close>
  is called without \<^verbatim>\<open>re.IGNORECASE\<close>) and the literal dash.
  \<open>match_here\<close> matches a pattern at the start of a text, \<open>re_search\<close> yields
  the leftmost match anywhere in it as \<^verbatim>\<open>re.search(...).group(0)\<close> does, and
  \<open>fullmatch\<close> says that a whole text matches. The classes are a parameter of
  \<open>match_here\<close>, so that matching without regard to case can be stated as well.
\<close>

datatype char_class = Hex | Dash

definition is_digit :: "char \<Rightarrow> bool" where
  "is_digit c = (c \<in> set ''0123456789'')"

definition is_hex_lower :: "char \<Rightarrow> bool" where
  "is_hex_lower c = (is_digit c \<or> c \<in> set ''abcdef'')"

definition is_hex_any :: "char \<Rightarrow> bool" where
  "is_hex_any c = (is_hex_lower c \<or> c \<in> set ''ABCDEF'')"

fun in_class :: "char_class \<Rightarrow> char \<Rightarrow> bool" where
  "in_class Hex c = is_hex_lower c"
| "in_class Dash c = (c = CHR ''-'')"

fun in_class_ignorecase :: "char_class \<Rightarrow> char \<Rightarrow> bool" where
  "in_class_ignorecase Hex c = is_hex_any c"
| "in_class_ignorecase Dash c = (c = CHR ''-'')"

definition uuid_pattern :: "char_class list" where
  "uuid_pattern =
     replicate 8 Hex @ [Dash] @ replicate 4 Hex @ [Dash] @ replicate 4 Hex @ [Dash]
       @ replicate 4 Hex @ [Dash] @ replicate 12 Hex"

fun match_here :: "(char_class \<Rightarrow> char \<Rightarrow> bool) \<Rightarrow> char_class list \<Rightarrow> string \<Rightarrow> bool" where
  "match_here ok [] s = True"
| "match_here ok (p # ps) [] = False"
| "match_here ok (p # ps) (c # cs) = (ok p c \<and> match_here ok ps cs)"

fun re_search :: "char_class list \<Rightarrow> string \<Rightarrow> string option" where
  "re_search pat [] = (if pat = [] then Some [] else None)"
| "re_search pat (c # cs) =
     (if match_here in_class pat (c # cs) then Some (take (length pat) (c # cs))
      else re_search pat cs)"

definition fullmatch :: "(char_class \<Rightarrow> char \<Rightarrow> bool) \<Rightarrow> char_class list \<Rightarrow> string \<Rightarrow> bool" where
  "fullmatch ok pat s = (length s = length pat \<and> match_here ok pat s)"

text \<open>
  \<^verbatim>\<open>needle in haystack\<close> on strings, and \<^verbatim>\<open>text.split('\n')\<close>, which yields at
  least one line.
\<close>

fun py_in :: "string \<Rightarrow> string \<Rightarrow> bool" where
  "py_in needle [] = (needle = [])"
| "py_in needle (c # cs) = (prefix needle (c # cs) \<or> py_in needle cs)"

fun split_lines :: "string \<Rightarrow> string list" where
  "split_lines [] = [[]]"
| "split_lines (c # cs) =
     (if c = CHR 0x0A then [] # split_lines cs
      else (case split_lines cs of
              [] \<Rightarrow> [[c]]
            | l # ls \<Rightarrow> (c # l) # ls))"

subsection \<open>extract\_uuids\_from\_output\<close>

text \<open>
  The loop over the lines (lines 69 to 77) with its two local variables, both \<^verbatim>\<open>""\<close>
  at the start. A line with the first label is never looked at for the second
  (\<^verbatim>\<open>elif\<close>); a match is assigned whatever the variable held before. The pattern is
  searched in the whole line. The \<^verbatim>\<open>try\<close> around the loop has nothing to catch on a
  string.
\<close>

fun scan_lines :: "string list \<Rightarrow> string \<Rightarrow> string \<Rightarrow> string \<times> string" where
  "scan_lines [] vm_u task_u = (vm_u, task_u)"
| "scan_lines (line # lines) vm_u task_u =
     (if py_in ''VM UUID:'' line then
        (case re_search uuid_pattern line of
           Some m \<Rightarrow> scan_lines lines m task_u
         | None \<Rightarrow> scan_lines lines vm_u task_u)
      else if py_in ''Task UUID:'' line then
        (case re_search uuid_pattern line of
           Some m \<Rightarrow> scan_lines lines vm_u m
         | None \<Rightarrow> scan_lines lines vm_u task_u)
      else scan_lines lines vm_u task_u)"

definition extract_uuids_from_output :: "string \<Rightarrow> string \<times> string" where
  "extract_uuids_from_output output_text = scan_lines (split_lines output_text) [] []"

subsection \<open>What the claims about the extractor speak of\<close>

text \<open>
  The matches of the lines that the loop reads for each label, in the order of the
  lines, and two concrete outputs of the driven program.
\<close>

definition vm_matches :: "string list \<Rightarrow> string list" where
  "vm_matches lines =
     List.map_filter (re_search uuid_pattern) (filter (py_in ''VM UUID:'') lines)"

definition task_matches :: "string list \<Rightarrow> string list" where
  "task_matches lines =
     List.map_filter (re_search uuid_pattern)
       (filter (\<lambda>l. \<not> py_in ''VM UUID:'' l \<and> py_in ''Task UUID:'' l) lines)"

definition two_vm_lines :: string where
  "two_vm_lines =
     ''VM UUID: 11111111-2222-3333-4444-555555555555'' @ [CHR 0x0A] @
     ''retrying'' @ [CHR 0x0A] @
     ''VM UUID: aaaaaaaa-bbbb-cccc-dddd-eeeeeeeeeeee''"

definition uppercase_line :: string where
  "uppercase_line = ''VM UUID: AAAAAAAA-BBBB-CCCC-DDDD-EEEEEEEEEEEE''"


subsection \<open>Matches are well formed; the last one is kept\<close>

lemma match_here_length: "match_here ok pat s \<Longrightarrow> length pat \<le> length s"
  by (induction ok pat s rule: match_here.induct) auto

lemma match_here_take: "match_here ok pat s \<Longrightarrow> match_here ok pat (take (length pat) s)"
  by (induction ok pat s rule: match_here.induct) auto

lemma match_here_ignorecase:
  "match_here in_class pat s \<Longrightarrow> match_here in_class_ignorecase pat s"
proof (induction in_class pat s rule: match_here.induct)
  case (3 p ps c cs)
  then have "in_class_ignorecase p c" by (cases p) (auto simp: is_hex_any_def)
  with 3 show ?case by simp
qed auto

lemma re_search_fullmatch:
  "re_search pat s = Some m \<Longrightarrow> fullmatch in_class pat m"
proof (induction pat s rule: re_search.induct)
  case (1 pat)
  then show ?case by (auto simp: fullmatch_def split: if_splits)
next
  case (2 pat c cs)
  show ?case
  proof (cases "match_here in_class pat (c # cs)")
    case True
    with 2 have m: "m = take (length pat) (c # cs)" by simp
    from True have "length pat \<le> length (c # cs)" by (rule match_here_length)
    then have "length m = length pat" using m by simp
    with True m show ?thesis using match_here_take[OF True] by (simp add: fullmatch_def)
  next
    case False
    with 2 show ?thesis by simp
  qed
qed

lemma length_uuid_pattern: "length uuid_pattern = 36"
  by (simp add: uuid_pattern_def)

lemma re_search_uuid_nonempty: "re_search uuid_pattern s = Some m \<Longrightarrow> m \<noteq> []"
  using re_search_fullmatch[of uuid_pattern s m] by (auto simp: fullmatch_def length_uuid_pattern)

lemma vm_matches_Cons:
  "vm_matches (l # ls) =
     (if py_in ''VM UUID:'' l
      then (case re_search uuid_pattern l of None \<Rightarrow> [] | Some m \<Rightarrow> [m]) else []) @ vm_matches ls"
  by (simp add: vm_matches_def List.map_filter_simps split: option.splits)

lemma task_matches_Cons:
  "task_matches (l # ls) =
     (if \<not> py_in ''VM UUID:'' l \<and> py_in ''Task UUID:'' l
      then (case re_search uuid_pattern l of None \<Rightarrow> [] | Some m \<Rightarrow> [m]) else []) @ task_matches ls"
  by (simp add: task_matches_def List.map_filter_simps split: option.splits)

lemma scan_lines_last:
  "scan_lines ls v t =
     (if vm_matches ls = [] then v else last (vm_matches ls),
      if task_matches ls = [] then t else last (task_matches ls))"
proof (induction ls arbitrary: v t)
  case Nil
  show ?case by (simp add: vm_matches_def task_matches_def List.map_filter_simps)
next
  case (Cons l ls)
  show ?case
    by (cases "re_search uuid_pattern l")
       (simp_all add: Cons vm_matches_Cons task_matches_Cons)
qed

lemma vm_matches_wf: "m \<in> set (vm_matches ls) \<Longrightarrow> fullmatch in_class uuid_pattern m"
  by (auto simp: vm_matches_def List.map_filter_def intro: re_search_fullmatch)

lemma task_matches_wf: "m \<in> set (task_matches ls) \<Longrightarrow> fullmatch in_class uuid_pattern m"
  by (auto simp: task_matches_def List.map_filter_def intro: re_search_fullmatch)

lemma fullmatch_ignorecase:
  "fullmatch in_class pat s \<Longrightarrow> fullmatch in_class_ignorecase pat s"
  by (simp add: fullmatch_def match_here_ignorecase)

lemma fullmatch_uuid_nonempty: "fullmatch ok uuid_pattern s \<Longrightarrow> s \<noteq> []"
  by (auto simp: fullmatch_def length_uuid_pattern)

text \<open>
  Claim C2, as stated: of several labelled lines with a match the first is kept. On an
  output with two \<^verbatim>\<open>VM UUID:\<close> lines the extractor yields the identifier of the
  second one.
\<close>

theorem extractor_first_match_counterexample:
  "vm_matches (split_lines two_vm_lines) =
     [''11111111-2222-3333-4444-555555555555'', ''aaaaaaaa-bbbb-cccc-dddd-eeeeeeeeeeee'']
   \<and> fst (extract_uuids_from_output two_vm_lines) = ''aaaaaaaa-bbbb-cccc-dddd-eeeeeeeeeeee''
   \<and> fst (extract_uuids_from_output two_vm_lines) \<noteq> ''11111111-2222-3333-4444-555555555555''"
  by code_simp

text \<open>
  Claim C2, amended: for each label the extractor keeps the last match among the lines
  it reads for that label, and the empty string when there is none; earlier matches are
  overwritten.
\<close>

theorem extractor_keeps_last_match:
  "fst (extract_uuids_from_output t) =
     (if vm_matches (split_lines t) = [] then [] else last (vm_matches (split_lines t)))
   \<and> snd (extract_uuids_from_output t) =
     (if task_matches (split_lines t) = [] then [] else last (task_matches (split_lines t)))"
  by (simp add: extract_uuids_from_output_def scan_lines_last)

text \<open>
  Claim C5, as stated: an identifier written with uppercase hexadecimal digits on a
  labelled line is extracted. The line below carries the label and an identifier that
  matches the pattern when case is ignored, and nothing is extracted from it.
\<close>

theorem extractor_uppercase_counterexample:
  "py_in ''VM UUID:'' uppercase_line
   \<and> fullmatch in_class_ignorecase uuid_pattern ''AAAAAAAA-BBBB-CCCC-DDDD-EEEEEEEEEEEE''
   \<and> extract_uuids_from_output uppercase_line = ([], [])"
  by code_simp

text \<open>
  Claim C5, amended: every identifier the extractor yields matches the 8-4-4-4-12
  pattern with lowercase hexadecimal digits, hence also when case is ignored; a label
  yields the empty string exactly when none of its lines has such a match.
\<close>

theorem extracted_identifiers_well_formed:
  "(fst (extract_uuids_from_output t) = [] \<or>
      fullmatch in_class uuid_pattern (fst (extract_uuids_from_output t))
      \<and> fullmatch in_class_ignorecase uuid_pattern (fst (extract_uuids_from_output t)))
   \<and> (snd (extract_uuids_from_output t) = [] \<or>
      fullmatch in_class uuid_pattern (snd (extract_uuids_from_output t))
      \<and> fullmatch in_class_ignorecase uuid_pattern (snd (extract_uuids_from_output t)))
   \<and> (fst (extract_uuids_from_output t) = []) = (vm_matches (split_lines t) = [])
   \<and> (snd (extract_uuids_from_output t) = []) = (task_matches (split_lines t) = [])"
proof -
  let ?vm = "vm_matches (split_lines t)" and ?task = "task_matches (split_lines t)"
  have r: "extract_uuids_from_output t =
      (if ?vm = [] then [] else last ?vm, if ?task = [] then [] else last ?task)"
    by (simp add: extract_uuids_from_output_def scan_lines_last)
  have v: "fullmatch in_class uuid_pattern (last ?vm)" if "?vm \<noteq> []"
    using that vm_matches_wf[of "last ?vm" "split_lines t"] by simp
  have k: "fullmatch in_class uuid_pattern (last ?task)" if "?task \<noteq> []"
    using that task_matches_wf[of "last ?task" "split_lines t"] by simp
  show ?thesis
    using v k fullmatch_ignorecase fullmatch_uuid_nonempty[of in_class]
    by (auto simp: r)
qed

section \<open>The interactive session driver and the in-process strategy (deploy\_vm\_automated\_v2.py, deploy\_vm\_automated\_v3.py)\<close>

subsection \<open>Exceptions and the state of the process\<close>

text \<open>
  The exceptions that the wrappers can meet. \<^verbatim>\<open>except Exception\<close> catches the first three
  and lets \<^verbatim>\<open>SystemExit\<close> and \<^verbatim>\<open>KeyboardInterrupt\<close> pass. \<open>exn_str\<close> is \<^verbatim>\<open>str(e)\<close>
  and \<open>exn_type_name\<close> is \<^verbatim>\<open>type(e).__name__\<close>.
\<close>

datatype exn =
    RecursionError
  | EOFError
  | Exception string
  | SystemExit int
  | KeyboardInterrupt

fun is_Exception :: "exn \<Rightarrow> bool" where
  "is_Exception (SystemExit code) = False"
| "is_Exception KeyboardInterrupt = False"
| "is_Exception e = True"

fun exn_str :: "exn \<Rightarrow> string" where
  "exn_str RecursionError = ''maximum recursion depth exceeded''"
| "exn_str EOFError = ''EOF when reading a line''"
| "exn_str (Exception text) = text"
| "exn_str (SystemExit code) = []"
| "exn_str KeyboardInterrupt = []"

fun exn_type_name :: "exn \<Rightarrow> string" where
  "exn_type_name RecursionError = ''RecursionError''"
| "exn_type_name EOFError = ''EOFError''"
| "exn_type_name (Exception text) = ''Exception''"
| "exn_type_name (SystemExit code) = ''SystemExit''"
| "exn_type_name KeyboardInterrupt = ''KeyboardInterrupt''"

text \<open>
  The wrappers assign to \<^verbatim>\<open>builtins.input\<close>, \<^verbatim>\<open>getpass.getpass\<close> and
  \<^verbatim>\<open>builtins.print\<close>. Each of the three names is bound either to the function of the
  standard library or to the closure that \<^verbatim>\<open>run_automated_deployment\<close> creates. A call
  by name looks the binding up when the call is made.
\<close>

datatype input_fn = Builtin_input | Automated_input
datatype getpass_fn = Builtin_getpass | Automated_getpass
datatype print_fn = Builtin_print | Capture_print

text \<open>
  The state that the calls read and change: the three bindings and \<^verbatim>\<open>sys.argv\<close>; what
  has been written to the output stream (one entry for every write) and what a person at
  the terminal would type, line by line; the files written; and the variables of
  \<^verbatim>\<open>run_automated_deployment\<close> that its closures share: the answer queue, the
  password dictionary, the saved \<^verbatim>\<open>original_print\<close> and the two \<^verbatim>\<open>nonlocal\<close>
  variables of \<^verbatim>\<open>capture_print\<close>.
\<close>

record process =
  builtins_input :: input_fn
  getpass_getpass :: getpass_fn
  builtins_print :: print_fn
  sys_argv :: "string list"
  stdout :: "string list"
  terminal :: "string list"
  written_files :: "(string \<times> string) list"
  inputs_queue :: "string list"
  passwords_dict :: json_object
  original_print :: print_fn
  captured_vm_uuid :: "string option"
  captured_task_uuid :: "string option"

definition dict_get :: "json_object \<Rightarrow> string \<Rightarrow> string \<Rightarrow> string" where
  "dict_get d key dflt = get_or (map_of d key) dflt"

subsection \<open>What the closures compute\<close>

text \<open>
  \<^verbatim>\<open>str.lower\<close> on ASCII letters, and the choice of the password in
  \<^verbatim>\<open>automated_getpass\<close> (lines 43 to 50 of the second revision; the third and fourth
  have the same text).
\<close>

definition lower_char :: "char \<Rightarrow> char" where
  "lower_char c =
     (if (65::nat) \<le> of_char c \<and> of_char c \<le> (90::nat)
      then char_of (of_char c + (32::nat)) else c)"

definition lower :: "string \<Rightarrow> string" where
  "lower s = map lower_char s"

definition select_password :: "json_object \<Rightarrow> string \<Rightarrow> string" where
  "select_password passwords prompt =
     (if py_in ''admin'' (lower prompt) \<or> py_in ''administrator'' (lower prompt)
      then dict_get passwords ''admin_password'' []
      else if list_ex (\<lambda>keyword. py_in keyword (lower prompt))
                [''prism'', ''pc_'', ''enter password for'']
      then dict_get passwords ''pc_password'' []
      else dict_get passwords ''admin_password'' [])"

text \<open>
  \<^verbatim>\<open>repr\<close> of a string: the quote is the double quote only when the text has a single
  quote and no double quote; the backslash, the quote, newline, carriage return and tab
  are escaped. Other characters stand for themselves.
\<close>

definition repr_escape :: "char \<Rightarrow> char \<Rightarrow> string" where
  "repr_escape quote c =
     (if c = CHR 0x5C then [CHR 0x5C, CHR 0x5C]
      else if c = quote then [CHR 0x5C, quote]
      else if c = CHR 0x0A then [CHR 0x5C, CHR ''n'']
      else if c = CHR 0x0D then [CHR 0x5C, CHR ''r'']
      else if c = CHR 0x09 then [CHR 0x5C, CHR ''t'']
      else [c])"

definition py_repr :: "string \<Rightarrow> string" where
  "py_repr s =
     (let quote = (if CHR 0x27 \<in> set s \<and> CHR 0x22 \<notin> set s then CHR 0x22 else CHR 0x27)
      in quote # concat (map (repr_escape quote) s) @ [quote])"

text \<open>
  \<^verbatim>\<open>re.search\<close> with the two patterns of \<^verbatim>\<open>capture_print\<close>, a label followed by optional
  white space and the group \<^verbatim>\<open>([a-fA-F0-9-]+)\<close>: the leftmost place where the label, any
  white space and at least one character of the class follow each other; the result is
  group 1, the longest run of the class.
\<close>

definition is_space :: "char \<Rightarrow> bool" where
  "is_space c = (c \<in> set [CHR '' '', CHR 0x09, CHR 0x0A, CHR 0x0B, CHR 0x0C, CHR 0x0D])"

definition is_hex_or_dash :: "char \<Rightarrow> bool" where
  "is_hex_or_dash c = (is_hex_any c \<or> c = CHR ''-'')"

fun search_label :: "string \<Rightarrow> string \<Rightarrow> string option" where
  "search_label label [] = None"
| "search_label label (c # cs) =
     (if prefix label (c # cs) then
        (let group1 = takeWhile is_hex_or_dash
                        (dropWhile is_space (drop (length label) (c # cs)))
         in if group1 \<noteq> [] then Some group1 else search_label label cs)
      else search_label label cs)"

subsection \<open>The standard functions and their substitutes\<close>

text \<open>
  A call takes the state and yields an exception or a value, and the new state.
  \<open>then_do\<close> runs the next statement unless the one before it raised.
\<close>

type_synonym 'a call = "process \<Rightarrow> (exn + 'a) \<times> process"

definition then_do ::
  "('e + 'a) \<times> 's \<Rightarrow> ('a \<Rightarrow> 's \<Rightarrow> ('e + 'b) \<times> 's) \<Rightarrow> ('e + 'b) \<times> 's" where
  "then_do m f = (case m of (Inl e, s) \<Rightarrow> (Inl e, s) | (Inr a, s) \<Rightarrow> f a s)"

text \<open>
  The functions of the standard library: \<^verbatim>\<open>print\<close> writes its text, \<^verbatim>\<open>input\<close> and
  \<^verbatim>\<open>getpass\<close> write the prompt and read a line, and raise \<^verbatim>\<open>EOFError\<close> when there
  is none.
\<close>

definition builtin_print :: "string \<Rightarrow> unit call" where
  "builtin_print msg s = (Inr (), s\<lparr>stdout := stdout s @ [msg]\<rparr>)"

definition builtin_input :: "string \<Rightarrow> string call" where
  "builtin_input prompt s =
     (case terminal s of
        [] \<Rightarrow> (Inl EOFError, s\<lparr>stdout := stdout s @ [prompt]\<rparr>)
      | line # rest \<Rightarrow> (Inr line, s\<lparr>stdout := stdout s @ [prompt], terminal := rest\<rparr>))"

definition builtin_getpass :: "string \<Rightarrow> string call" where
  "builtin_getpass prompt s =
     (case terminal s of
        [] \<Rightarrow> (Inl EOFError, s\<lparr>stdout := stdout s @ [prompt]\<rparr>)
      | line # rest \<Rightarrow> (Inr line, s\<lparr>stdout := stdout s @ [prompt], terminal := rest\<rparr>))"

text \<open>
  The three closures, with the names they call as parameters: inside each of them
  \<^verbatim>\<open>print\<close> and \<^verbatim>\<open>input\<close> are global names, resolved in \<^verbatim>\<open>builtins\<close> at the time
  of the call, and \<^verbatim>\<open>original_print\<close> is the saved function.
\<close>

definition capture_print ::
  "(string \<Rightarrow> unit call) \<Rightarrow> (string \<Rightarrow> unit call) \<Rightarrow> string \<Rightarrow> unit call" where
  "capture_print print original_pr msg s0 =
     then_do (if list_ex (\<lambda>uuid_keyword. py_in uuid_keyword msg)
                   [''VM UUID'', ''Task UUID'', ''UUID:'']
              then print (''[DEBUG] Captured print: '' @ py_repr msg) s0
              else (Inr (), s0)) (\<lambda>_ s1.
     then_do (if py_in ''VM UUID:'' msg then
                (case search_label ''VM UUID:'' msg of
                   Some group1 \<Rightarrow>
                     print (''[DEBUG] VM UUID matched: '' @ group1)
                       (s1\<lparr>captured_vm_uuid := Some group1\<rparr>)
                 | None \<Rightarrow> print (''[DEBUG] VM UUID not matched in: '' @ py_repr msg) s1)
              else (Inr (), s1)) (\<lambda>_ s2.
     then_do (if py_in ''Task UUID:'' msg then
                (case search_label ''Task UUID:'' msg of
                   Some group1 \<Rightarrow>
                     print (''[DEBUG] Task UUID matched: '' @ group1)
                       (s2\<lparr>captured_task_uuid := Some group1\<rparr>)
                 | None \<Rightarrow> print (''[DEBUG] Task UUID not matched in: '' @ py_repr msg) s2)
              else (Inr (), s2)) (\<lambda>_ s3.
     original_pr msg s3)))"

definition automated_input ::
  "(string \<Rightarrow> unit call) \<Rightarrow> (string \<Rightarrow> string call) \<Rightarrow> string \<Rightarrow> string call" where
  "automated_input print input prompt s =
     (case inputs_queue s of
        response # rest \<Rightarrow>
          then_do (print (prompt @ response) (s\<lparr>inputs_queue := rest\<rparr>))
            (\<lambda>_ s1. (Inr response, s1))
      | [] \<Rightarrow> input prompt s)"

definition automated_getpass :: "(string \<Rightarrow> unit call) \<Rightarrow> string \<Rightarrow> string call" where
  "automated_getpass print prompt s =
     (let password = select_password (passwords_dict s) prompt
      in then_do (print (prompt @ replicate (length password) (CHR ''*'')) s)
           (\<lambda>_ s1. (Inr password, s1)))"

text \<open>
  Calling whatever a name is bound to. The first argument is the number of nested
  calls that the interpreter still allows; a call beyond it raises
  \<^verbatim>\<open>RecursionError\<close>. \<open>py_print\<close>, \<open>py_input\<close> and \<open>py_getpass\<close> are the calls
  by name.
\<close>

fun call_print :: "nat \<Rightarrow> print_fn \<Rightarrow> string \<Rightarrow> unit call" where
  "call_print 0 f msg s = (Inl RecursionError, s)"
| "call_print (Suc d) Builtin_print msg s = builtin_print msg s"
| "call_print (Suc d) Capture_print msg s =
     capture_print (\<lambda>m t. call_print d (builtins_print t) m t)
                   (\<lambda>m t. call_print d (original_print t) m t) msg s"

definition py_print :: "nat \<Rightarrow> string \<Rightarrow> unit call" where
  "py_print d msg s = call_print d (builtins_print s) msg s"

fun call_input :: "nat \<Rightarrow> input_fn \<Rightarrow> string \<Rightarrow> string call" where
  "call_input 0 f prompt s = (Inl RecursionError, s)"
| "call_input (Suc d) Builtin_input prompt s = builtin_input prompt s"
| "call_input (Suc d) Automated_input prompt s =
     automated_input (py_print d) (\<lambda>p t. call_input d (builtins_input t) p t) prompt s"

definition py_input :: "nat \<Rightarrow> string \<Rightarrow> string call" where
  "py_input d prompt s = call_input d (builtins_input s) prompt s"

fun call_getpass :: "nat \<Rightarrow> getpass_fn \<Rightarrow> string \<Rightarrow> string call" where
  "call_getpass 0 f prompt s = (Inl RecursionError, s)"
| "call_getpass (Suc d) Builtin_getpass prompt s = builtin_getpass prompt s"
| "call_getpass (Suc d) Automated_getpass prompt s = automated_getpass (py_print d) prompt s"

definition py_getpass :: "nat \<Rightarrow> string \<Rightarrow> string call" where
  "py_getpass d prompt s = call_getpass d (getpass_getpass s) prompt s"

subsection \<open>The driven program\<close>

text \<open>
  \<^verbatim>\<open>deploy_win_vm.py\<close> is not part of the wrappers. It is any program that ends, raises,
  reads \<^verbatim>\<open>sys.argv\<close>, or calls \<^verbatim>\<open>input\<close>, \<^verbatim>\<open>getpass.getpass\<close> or \<^verbatim>\<open>print\<close> and
  goes on according to what the call gave it, an exception included.
\<close>

datatype prog =
    Done
  | Raise exn
  | CallInput string "exn + string \<Rightarrow> prog"
  | CallGetpass string "exn + string \<Rightarrow> prog"
  | CallPrint string "exn + unit \<Rightarrow> prog"
  | ReadArgv "string list \<Rightarrow> prog"

primrec exec_module :: "nat \<Rightarrow> prog \<Rightarrow> process \<Rightarrow> (exn + unit) \<times> process" where
  "exec_module d Done s = (Inr (), s)"
| "exec_module d (Raise e) s = (Inl e, s)"
| "exec_module d (CallInput prompt k) s =
     (case py_input d prompt s of (r, s1) \<Rightarrow> exec_module d (k r) s1)"
| "exec_module d (CallGetpass prompt k) s =
     (case py_getpass d prompt s of (r, s1) \<Rightarrow> exec_module d (k r) s1)"
| "exec_module d (CallPrint msg k) s =
     (case py_print d msg s of (r, s1) \<Rightarrow> exec_module d (k r) s1)"
| "exec_module d (ReadArgv k) s = exec_module d (k (sys_argv s)) s"

subsection \<open>run\_automated\_deployment\<close>

text \<open>
  The parts that the two revisions have in common: the mask printed for a password,
  the \<^verbatim>\<open>try\<close>/\<^verbatim>\<open>finally\<close> that sets and restores \<^verbatim>\<open>sys.argv\<close> around the driven
  program, the run without an automation request, and the statements before the
  bindings are changed (they also fill the answer queue and the password dictionary).
\<close>

definition mask_or_not_provided :: "string \<Rightarrow> string" where
  "mask_or_not_provided password =
     (if password \<noteq> [] then replicate (length password) (CHR ''*'') else ''Not provided'')"

definition with_deploy_argv :: "unit call \<Rightarrow> unit call" where
  "with_deploy_argv body s =
     (let original_argv = sys_argv s;
          (r, s1) = body (s\<lparr>sys_argv := [''deploy_win_vm.py'', ''--deploy'']\<rparr>)
      in (r, s1\<lparr>sys_argv := original_argv\<rparr>))"

definition run_interactive :: "nat \<Rightarrow> prog \<Rightarrow> process \<Rightarrow> (exn + int) \<times> process" where
  "run_interactive d deploy_win_vm s0 =
     then_do (py_print d ''[ERROR] No automation data found. Running in interactive mode.'' s0) (\<lambda>_ s1.
     then_do (with_deploy_argv (exec_module d deploy_win_vm) s1) (\<lambda>_ s2.
     (Inr 0, s2)))"

definition announce :: "nat \<Rightarrow> json_object \<Rightarrow> process \<Rightarrow> (exn + unit) \<times> process" where
  "announce d automation_data s0 =
     then_do (py_print d ''>>> Running VM deployment in automation mode...'' s0) (\<lambda>_ s1.
     then_do (py_print d (''   VM Name: '' @ dict_get automation_data ''vm_name'' ''N/A'') s1) (\<lambda>_ s2.
     then_do (py_print d ''>>> Password automation configured:''
                (s2\<lparr>inputs_queue := [dict_get automation_data ''vm_name'' [],
                                      dict_get automation_data ''proceed_deployment'' ''y''],
                     passwords_dict := [(''admin_password'', dict_get automation_data ''admin_password'' []),
                                        (''pc_password'', dict_get automation_data ''pc_password'' [])]\<rparr>))
       (\<lambda>_ s3.
     then_do (py_print d (''   VM Admin Password: ''
                @ mask_or_not_provided (dict_get (passwords_dict s3) ''admin_password'' [])) s3) (\<lambda>_ s4.
     py_print d (''   Prism Central Password: ''
                @ mask_or_not_provided (dict_get (passwords_dict s4) ''pc_password'' [])) s4))))"

text \<open>
  The third revision: the inner \<^verbatim>\<open>try\<close> that writes the result file and prints the
  placeholders, the body of the outer \<^verbatim>\<open>try\<close>, its \<^verbatim>\<open>except Exception\<close> handler and
  its \<^verbatim>\<open>finally\<close> block. The automation request is the JSON object of the file, or
  nothing; an empty object is false in \<^verbatim>\<open>if not automation_data\<close>.
\<close>

definition v3_report :: "nat \<Rightarrow> process \<Rightarrow> (exn + unit) \<times> process" where
  "v3_report d s0 =
     (let s1 = s0\<lparr>written_files := written_files s0 @
                  [(''deployment_results.txt'',
                    ''Deployment completed - check Prism Central for actual UUIDs'' @ [CHR 0x0A])]\<rparr>
      in case then_do (py_print d ''VM UUID: [SUCCESS]'' s1)
                (\<lambda>_ s2. py_print d ''Task UUID: [SUCCESS]'' s2) of
           (Inl e, s3) \<Rightarrow>
             if is_Exception e
             then then_do (py_print d ''VM UUID: '' s3) (\<lambda>_ s4. py_print d ''Task UUID: '' s4)
             else (Inl e, s3)
         | (Inr u, s3) \<Rightarrow> (Inr u, s3))"

definition v3_try :: "nat \<Rightarrow> prog \<Rightarrow> process \<Rightarrow> (exn + int) \<times> process" where
  "v3_try d deploy_win_vm s0 =
     then_do (py_print d ''>>> Patched input functions for automation''
                (s0\<lparr>builtins_input := Automated_input, getpass_getpass := Automated_getpass\<rparr>))
       (\<lambda>_ s1.
     then_do (with_deploy_argv (exec_module d deploy_win_vm) s1) (\<lambda>_ s2.
     then_do (v3_report d s2) (\<lambda>_ s3.
     then_do (py_print d ''>>> Automated deployment completed'' s3) (\<lambda>_ s4.
     (Inr 0, s4)))))"

definition v3_except :: "nat \<Rightarrow> (exn + int) \<times> process \<Rightarrow> (exn + int) \<times> process" where
  "v3_except d outcome =
     (case outcome of
        (Inl e, s) \<Rightarrow>
          if is_Exception e
          then then_do (py_print d (''[ERROR] Error during automated deployment: '' @ exn_str e) s)
                 (\<lambda>_ s1. (Inr 1, s1))
          else (Inl e, s)
      | (Inr code, s) \<Rightarrow> (Inr code, s))"

definition v3_finally ::
  "nat \<Rightarrow> input_fn \<Rightarrow> getpass_fn \<Rightarrow> (exn + int) \<times> process \<Rightarrow> (exn + int) \<times> process" where
  "v3_finally d original_input original_getpass outcome =
     (case outcome of
        (res, s) \<Rightarrow>
          (case py_print d ''>>> Restored original input functions''
                  (s\<lparr>builtins_input := original_input, getpass_getpass := original_getpass\<rparr>) of
             (Inl e, s1) \<Rightarrow> (Inl e, s1)
           | (Inr _, s1) \<Rightarrow> (res, s1)))"

definition run_automated_deployment_v3 ::
  "nat \<Rightarrow> json_object option \<Rightarrow> prog \<Rightarrow> process \<Rightarrow> (exn + int) \<times> process" where
  "run_automated_deployment_v3 d automation_file deploy_win_vm s0 =
     (case automation_file of
        None \<Rightarrow> run_interactive d deploy_win_vm s0
      | Some automation_data \<Rightarrow>
          if automation_data = [] then run_interactive d deploy_win_vm s0
          else then_do (announce d automation_data s0) (\<lambda>_ s1.
                 v3_finally d (builtins_input s1) (getpass_getpass s1)
                   (v3_except d (v3_try d deploy_win_vm s1))))"

text \<open>
  The second revision also binds \<^verbatim>\<open>builtins.print\<close> to \<^verbatim>\<open>capture_print\<close>. The text
  of \<^verbatim>\<open>traceback.format_exc()\<close> is a parameter.
\<close>

definition str_of_captured :: "string option \<Rightarrow> string" where
  "str_of_captured v = (case v of None \<Rightarrow> ''None'' | Some u \<Rightarrow> u)"

definition v2_try :: "nat \<Rightarrow> prog \<Rightarrow> process \<Rightarrow> (exn + int) \<times> process" where
  "v2_try d deploy_win_vm s0 =
     then_do (py_print d ''>>> Patched input functions for automation''
                (s0\<lparr>builtins_input := Automated_input, getpass_getpass := Automated_getpass,
                     builtins_print := Capture_print\<rparr>))
       (\<lambda>_ s1.
     then_do (with_deploy_argv
                (\<lambda>t0.
                   then_do (py_print d ''[DEBUG] About to execute deploy_win_vm.py --deploy'' t0) (\<lambda>_ t1.
                   then_do (py_print d ''[DEBUG] Executing deploy_win_vm module'' t1) (\<lambda>_ t2.
                   then_do (exec_module d deploy_win_vm t2) (\<lambda>_ t3.
                   py_print d ''[DEBUG] deploy_win_vm module execution completed'' t3))))
                s1) (\<lambda>_ s2.
     then_do (py_print d (''[DEBUG] vm_uuid captured: ''
                @ str_of_captured (captured_vm_uuid s2)) s2) (\<lambda>_ s3.
     then_do (py_print d (''[DEBUG] task_uuid captured: ''
                @ str_of_captured (captured_task_uuid s3)) s3) (\<lambda>_ s4.
     then_do (if truthy (captured_vm_uuid s4)
              then py_print d (''VM UUID: '' @ str_of_captured (captured_vm_uuid s4)) s4
              else py_print d ''VM UUID: '' s4) (\<lambda>_ s5.
     then_do (if truthy (captured_task_uuid s5)
              then py_print d (''Task UUID: '' @ str_of_captured (captured_task_uuid s5)) s5
              else py_print d ''Task UUID: '' s5) (\<lambda>_ s6.
     then_do (py_print d ''>>> Automated deployment completed'' s6) (\<lambda>_ s7.
     (Inr 0, s7))))))))"

definition v2_except ::
  "nat \<Rightarrow> (exn \<Rightarrow> string) \<Rightarrow> (exn + int) \<times> process \<Rightarrow> (exn + int) \<times> process" where
  "v2_except d format_exc outcome =
     (case outcome of
        (Inl e, s) \<Rightarrow>
          if is_Exception e
          then then_do (py_print d (''[ERROR] Error during automated deployment: '' @ exn_str e) s) (\<lambda>_ s1.
               then_do (py_print d (''[ERROR] Exception type: '' @ exn_type_name e) s1) (\<lambda>_ s2.
               then_do (py_print d (''[ERROR] Traceback: '' @ format_exc e) s2) (\<lambda>_ s3.
               (Inr 1, s3))))
          else (Inl e, s)
      | (Inr code, s) \<Rightarrow> (Inr code, s))"

definition v2_finally ::
  "nat \<Rightarrow> input_fn \<Rightarrow> getpass_fn \<Rightarrow> print_fn \<Rightarrow> (exn + int) \<times> process
     \<Rightarrow> (exn + int) \<times> process" where
  "v2_finally d original_input original_getpass original_pr outcome =
     (case outcome of
        (res, s) \<Rightarrow>
          (case py_print d ''>>> Restored original input functions''
                  (s\<lparr>builtins_input := original_input, getpass_getpass := original_getpass,
                      builtins_print := original_pr\<rparr>) of
             (Inl e, s1) \<Rightarrow> (Inl e, s1)
           | (Inr _, s1) \<Rightarrow> (res, s1)))"

definition run_automated_deployment_v2 ::
  "nat \<Rightarrow> (exn \<Rightarrow> string) \<Rightarrow> json_object option \<Rightarrow> prog \<Rightarrow> process
     \<Rightarrow> (exn + int) \<times> process" where
  "run_automated_deployment_v2 d format_exc automation_file deploy_win_vm s0 =
     (case automation_file of
        None \<Rightarrow> run_interactive d deploy_win_vm s0
      | Some automation_data \<Rightarrow>
          if automation_data = [] then run_interactive d deploy_win_vm s0
          else then_do (announce d automation_data s0) (\<lambda>_ s1.
                 v2_finally d (builtins_input s1) (getpass_getpass s1) (builtins_print s1)
                   (v2_except d format_exc
                      (v2_try d deploy_win_vm
                         (s1\<lparr>original_print := builtins_print s1,
                             captured_vm_uuid := None, captured_task_uuid := None\<rparr>)))))"

subsection \<open>What the claims about the driver speak of\<close>

text \<open>
  The bindings and variables that no call changes, and the two that the third revision
  never assigns.
\<close>

definition patch_points :: "process \<Rightarrow> input_fn \<times> getpass_fn \<times> print_fn \<times> string list \<times> print_fn" where
  "patch_points s =
     (builtins_input s, getpass_getpass s, builtins_print s, sys_argv s, original_print s)"

definition untouched_by_v3 :: "process \<Rightarrow> print_fn \<times> string list" where
  "untouched_by_v3 s = (builtins_print s, sys_argv s)"

text \<open>
  The test that \<^verbatim>\<open>capture_print\<close> makes first, the two variables it assigns, and the
  condition under which a call of \<^verbatim>\<open>print\<close> by name simply writes its text: the name is
  bound to the standard function, or to \<^verbatim>\<open>capture_print\<close> with the standard function
  saved and a text without any of the three keywords.
\<close>

definition has_uuid_keyword :: "string \<Rightarrow> bool" where
  "has_uuid_keyword msg =
     list_ex (\<lambda>uuid_keyword. py_in uuid_keyword msg) [''VM UUID'', ''Task UUID'', ''UUID:'']"

definition captured :: "process \<Rightarrow> string option \<times> string option" where
  "captured s = (captured_vm_uuid s, captured_task_uuid s)"





text \<open>
  A concrete run: an automation request, a process before the wrapper starts, the same
  process with the bindings of the third revision and an empty answer queue, and a
  driven program that asks a third question after the two that the queue answers.
\<close>

definition request :: json_object where
  "request = [(''vm_name'', ''win-01''), (''admin_password'', ''S3cret!''),
              (''pc_password'', ''nutanix/4u''), (''proceed_deployment'', ''y'')]"

definition fresh_process :: process where
  "fresh_process =
     \<lparr>builtins_input = Builtin_input, getpass_getpass = Builtin_getpass,
      builtins_print = Builtin_print, sys_argv = [''deploy_vm_automated_v3.py''],
      stdout = [], terminal = [''typed by hand''], written_files = [],
      inputs_queue = [], passwords_dict = [], original_print = Builtin_print,
      captured_vm_uuid = None, captured_task_uuid = None\<rparr>"

definition exhausted_process :: process where
  "exhausted_process =
     fresh_process\<lparr>builtins_input := Automated_input, getpass_getpass := Automated_getpass,
       passwords_dict := [(''admin_password'', ''S3cret!''), (''pc_password'', ''nutanix/4u'')]\<rparr>"

definition propagate :: "(string \<Rightarrow> prog) \<Rightarrow> exn + string \<Rightarrow> prog" where
  "propagate k r = (case r of Inl e \<Rightarrow> Raise e | Inr a \<Rightarrow> k a)"

definition asks_three_times :: prog where
  "asks_three_times =
     CallInput ''Enter VM name: '' (propagate (\<lambda>name.
     CallInput ''Proceed with deployment? (y/n): '' (propagate (\<lambda>answer.
     CallInput ''Press Enter to exit'' (propagate (\<lambda>_. Done))))))"


subsection \<open>No call changes a binding\<close>

lemma then_do_keeps:
  assumes "g (snd m) = g s" and "\<And>a t. g (snd (f a t)) = g t"
  shows "g (snd (then_do m f)) = g s"
proof (cases m)
  case (Pair r t)
  with assms show ?thesis by (cases r) (simp_all add: then_do_def)
qed

lemma builtin_print_keeps: "patch_points (snd (builtin_print msg s)) = patch_points s"
  by (simp add: builtin_print_def patch_points_def)

lemma builtin_input_keeps: "patch_points (snd (builtin_input p s)) = patch_points s"
  by (simp add: builtin_input_def patch_points_def split: list.splits)

lemma builtin_getpass_keeps: "patch_points (snd (builtin_getpass p s)) = patch_points s"
  by (simp add: builtin_getpass_def patch_points_def split: list.splits)

lemma patch_points_updates [simp]:
  "patch_points (s\<lparr>captured_vm_uuid := a\<rparr>) = patch_points s"
  "patch_points (s\<lparr>captured_task_uuid := b\<rparr>) = patch_points s"
  "patch_points (s\<lparr>inputs_queue := q\<rparr>) = patch_points s"
  "patch_points (s\<lparr>passwords_dict := pd\<rparr>) = patch_points s"
  "patch_points (s\<lparr>written_files := w\<rparr>) = patch_points s"
  "patch_points (s\<lparr>stdout := out\<rparr>) = patch_points s"
  "patch_points (s\<lparr>terminal := tr\<rparr>) = patch_points s"
  by (simp_all add: patch_points_def)

lemma capture_print_keeps:
  assumes pr: "\<And>m t. patch_points (snd (pr m t)) = patch_points t"
      and orig: "\<And>m t. patch_points (snd (orig m t)) = patch_points t"
  shows "patch_points (snd (capture_print pr orig msg s)) = patch_points s"
  unfolding capture_print_def
  by (intro then_do_keeps) (simp_all add: pr orig split: option.splits)

lemma call_print_keeps: "patch_points (snd (call_print d f msg s)) = patch_points s"
proof (induction d arbitrary: f msg s)
  case 0
  show ?case by simp
next
  case (Suc d)
  show ?case
    by (cases f) (simp_all add: builtin_print_keeps capture_print_keeps Suc)
qed

lemma py_print_keeps: "patch_points (snd (py_print d msg s)) = patch_points s"
  by (simp add: py_print_def call_print_keeps)

lemma automated_input_keeps:
  assumes pr: "\<And>m t. patch_points (snd (pr m t)) = patch_points t"
      and inp: "\<And>m t. patch_points (snd (inp m t)) = patch_points t"
  shows "patch_points (snd (automated_input pr inp p s)) = patch_points s"
proof (cases "inputs_queue s")
  case Nil
  then show ?thesis by (simp add: automated_input_def inp)
next
  case (Cons a rest)
  have "patch_points (snd (then_do (pr (p @ a) (s\<lparr>inputs_queue := rest\<rparr>)) (\<lambda>_ s1. (Inr a, s1)))) = patch_points s"
    by (rule then_do_keeps) (simp_all add: pr)
  with Cons show ?thesis by (simp add: automated_input_def)
qed

lemma call_input_keeps: "patch_points (snd (call_input d f p s)) = patch_points s"
proof (induction d arbitrary: f p s)
  case 0
  show ?case by simp
next
  case (Suc d)
  show ?case
    by (cases f) (simp_all add: builtin_input_keeps automated_input_keeps py_print_keeps Suc)
qed

lemma py_input_keeps: "patch_points (snd (py_input d p s)) = patch_points s"
  by (simp add: py_input_def call_input_keeps)

lemma automated_getpass_keeps:
  assumes pr: "\<And>m t. patch_points (snd (pr m t)) = patch_points t"
  shows "patch_points (snd (automated_getpass pr p s)) = patch_points s"
  unfolding automated_getpass_def Let_def
  by (rule then_do_keeps) (simp_all add: pr)

lemma call_getpass_keeps: "patch_points (snd (call_getpass d f p s)) = patch_points s"
  by (cases d; cases f) (simp_all add: builtin_getpass_keeps automated_getpass_keeps py_print_keeps)

lemma py_getpass_keeps: "patch_points (snd (py_getpass d p s)) = patch_points s"
  by (simp add: py_getpass_def call_getpass_keeps)

lemma exec_module_keeps: "patch_points (snd (exec_module d p s)) = patch_points s"
proof (induction p arbitrary: s)
  case Done
  show ?case by simp
next
  case (Raise e)
  show ?case by simp
next
  case (CallInput prompt k)
  obtain r s1 where c: "py_input d prompt s = (r, s1)" by (cases "py_input d prompt s")
  then have "patch_points s1 = patch_points s" using py_input_keeps[of d prompt s] by simp
  with c CallInput[of "k r" s1] show ?case by simp
next
  case (CallGetpass prompt k)
  obtain r s1 where c: "py_getpass d prompt s = (r, s1)" by (cases "py_getpass d prompt s")
  then have "patch_points s1 = patch_points s" using py_getpass_keeps[of d prompt s] by simp
  with c CallGetpass[of "k r" s1] show ?case by simp
next
  case (CallPrint msg k)
  obtain r s1 where c: "py_print d msg s = (r, s1)" by (cases "py_print d msg s")
  then have "patch_points s1 = patch_points s" using py_print_keeps[of d msg s] by simp
  with c CallPrint[of "k r" s1] show ?case by simp
next
  case (ReadArgv k)
  then show ?case by simp
qed


lemma with_deploy_argv_keeps:
  assumes "\<And>t. patch_points (snd (body t)) = patch_points t"
  shows "patch_points (snd (with_deploy_argv body s)) = patch_points s"
proof -
  obtain r s1 where b: "body (s\<lparr>sys_argv := [''deploy_win_vm.py'', ''--deploy'']\<rparr>) = (r, s1)"
    by (cases "body (s\<lparr>sys_argv := [''deploy_win_vm.py'', ''--deploy'']\<rparr>)")
  with assms[of "s\<lparr>sys_argv := [''deploy_win_vm.py'', ''--deploy'']\<rparr>"]
  have "patch_points s1 = patch_points (s\<lparr>sys_argv := [''deploy_win_vm.py'', ''--deploy'']\<rparr>)"
    by simp
  with b show ?thesis by (simp add: with_deploy_argv_def patch_points_def)
qed

lemma run_interactive_keeps: "patch_points (snd (run_interactive d p s)) = patch_points s"
  unfolding run_interactive_def
  by (intro then_do_keeps with_deploy_argv_keeps) (simp_all add: py_print_keeps exec_module_keeps)

lemma announce_keeps: "patch_points (snd (announce d a s)) = patch_points s"
  unfolding announce_def
  by (intro then_do_keeps) (simp_all add: py_print_keeps)

lemma v3_report_keeps: "patch_points (snd (v3_report d s)) = patch_points s"
proof -
  let ?s1 = "s\<lparr>written_files := written_files s @
                  [(''deployment_results.txt'',
                    ''Deployment completed - check Prism Central for actual UUIDs'' @ [CHR 0x0A])]\<rparr>"
  let ?m = "then_do (py_print d ''VM UUID: [SUCCESS]'' ?s1) (\<lambda>_ s2. py_print d ''Task UUID: [SUCCESS]'' s2)"
  have m: "patch_points (snd ?m) = patch_points s"
    by (intro then_do_keeps) (simp_all add: py_print_keeps)
  obtain r s3 where r: "?m = (r, s3)" by (cases ?m)
  with m have s3: "patch_points s3 = patch_points s" by simp
  have h: "patch_points (snd (then_do (py_print d ''VM UUID: '' s3) (\<lambda>_ s4. py_print d ''Task UUID: '' s4))) = patch_points s"
    by (intro then_do_keeps) (simp_all add: py_print_keeps s3)
  show ?thesis using r s3 h by (cases r) (simp_all add: v3_report_def Let_def)
qed

lemma untouched_by_v3_of_patch_points:
  "patch_points t = patch_points s \<Longrightarrow> untouched_by_v3 t = untouched_by_v3 s"
  by (simp add: patch_points_def untouched_by_v3_def)

lemmas py_print_untouched = py_print_keeps [THEN untouched_by_v3_of_patch_points]
lemmas v3_report_untouched = v3_report_keeps [THEN untouched_by_v3_of_patch_points]

lemma deploy_untouched:
  "untouched_by_v3 (snd (with_deploy_argv (exec_module d p) s)) = untouched_by_v3 s"
  by (rule untouched_by_v3_of_patch_points, rule with_deploy_argv_keeps, rule exec_module_keeps)

lemma v3_try_untouched: "untouched_by_v3 (snd (v3_try d p s)) = untouched_by_v3 s"
  unfolding v3_try_def
proof (intro then_do_keeps)
  show "untouched_by_v3 (snd (py_print d ''>>> Patched input functions for automation''
           (s\<lparr>builtins_input := Automated_input, getpass_getpass := Automated_getpass\<rparr>)))
        = untouched_by_v3 s"
    by (simp add: py_print_untouched) (simp add: untouched_by_v3_def)
qed (simp_all add: py_print_untouched v3_report_untouched deploy_untouched)

lemma v3_except_keeps: "patch_points (snd (v3_except d outcome)) = patch_points (snd outcome)"
proof (cases outcome)
  case (Pair r s)
  show ?thesis
  proof (cases r)
    case (Inl e)
    show ?thesis
    proof (cases "is_Exception e")
      case True
      with Pair Inl show ?thesis
        unfolding v3_except_def
        by simp (intro then_do_keeps, simp_all add: py_print_keeps)
    next
      case False
      with Pair Inl show ?thesis by (simp add: v3_except_def)
    qed
  next
    case (Inr c)
    with Pair show ?thesis by (simp add: v3_except_def)
  qed
qed

lemma v3_finally_restores:
  "builtins_input (snd (v3_finally d oi og outcome)) = oi
   \<and> getpass_getpass (snd (v3_finally d oi og outcome)) = og
   \<and> untouched_by_v3 (snd (v3_finally d oi og outcome)) = untouched_by_v3 (snd outcome)"
proof (cases outcome)
  case (Pair res s)
  let ?s = "s\<lparr>builtins_input := oi, getpass_getpass := og\<rparr>"
  obtain r s1 where p: "py_print d ''>>> Restored original input functions'' ?s = (r, s1)"
    by (cases "py_print d ''>>> Restored original input functions'' ?s")
  with py_print_keeps[of d "''>>> Restored original input functions''" ?s]
  have "patch_points s1 = patch_points ?s" by simp
  with Pair p show ?thesis
    by (cases r) (simp_all add: v3_finally_def patch_points_def untouched_by_v3_def)
qed

lemma v3_restores:
  "builtins_input (snd (run_automated_deployment_v3 d af p s)) = builtins_input s
   \<and> getpass_getpass (snd (run_automated_deployment_v3 d af p s)) = getpass_getpass s
   \<and> builtins_print (snd (run_automated_deployment_v3 d af p s)) = builtins_print s"
proof -
  have i: "patch_points (snd (run_interactive d p s)) = patch_points s" by (rule run_interactive_keeps)
  have a: "builtins_input (snd R) = builtins_input s
   \<and> getpass_getpass (snd R) = getpass_getpass s
   \<and> builtins_print (snd R) = builtins_print s"
    if R: "R = then_do (announce d data s) (\<lambda>_ s1.
                 v3_finally d (builtins_input s1) (getpass_getpass s1)
                   (v3_except d (v3_try d p s1)))" for R data
  proof (cases "announce d data s")
    case (Pair r s1)
    with announce_keeps[of d data s] have s1: "patch_points s1 = patch_points s" by simp
    show ?thesis
    proof (cases r)
      case (Inl e)
      with Pair R s1 show ?thesis by (simp add: then_do_def patch_points_def)
    next
      case (Inr u)
      let ?o = "v3_except d (v3_try d p s1)"
      have "untouched_by_v3 (snd ?o) = untouched_by_v3 s1"
        using v3_except_keeps[of d "v3_try d p s1", THEN untouched_by_v3_of_patch_points]
              v3_try_untouched[of d p s1]
        by simp
      with v3_finally_restores[of d "builtins_input s1" "getpass_getpass s1" ?o] Pair Inr R s1
      show ?thesis by (simp add: then_do_def patch_points_def untouched_by_v3_def)
    qed
  qed
  show ?thesis
  proof (cases af)
    case None
    with i show ?thesis by (simp add: run_automated_deployment_v3_def patch_points_def)
  next
    case (Some data)
    show ?thesis
    proof (cases "data = []")
      case True
      with Some i show ?thesis by (simp add: run_automated_deployment_v3_def patch_points_def)
    next
      case False
      with Some a[OF refl, of data] show ?thesis by (simp add: run_automated_deployment_v3_def)
    qed
  qed
qed

lemma v2_finally_restores:
  "builtins_input (snd (v2_finally d oi og opr outcome)) = oi
   \<and> getpass_getpass (snd (v2_finally d oi og opr outcome)) = og
   \<and> builtins_print (snd (v2_finally d oi og opr outcome)) = opr"
proof (cases outcome)
  case (Pair res s)
  let ?s = "s\<lparr>builtins_input := oi, getpass_getpass := og, builtins_print := opr\<rparr>"
  obtain r s1 where p: "py_print d ''>>> Restored original input functions'' ?s = (r, s1)"
    by (cases "py_print d ''>>> Restored original input functions'' ?s")
  with py_print_keeps[of d "''>>> Restored original input functions''" ?s]
  have "patch_points s1 = patch_points ?s" by simp
  with Pair p show ?thesis
    by (cases r) (simp_all add: v2_finally_def patch_points_def)
qed

lemma v2_restores:
  "builtins_input (snd (run_automated_deployment_v2 d tb af p s)) = builtins_input s
   \<and> getpass_getpass (snd (run_automated_deployment_v2 d tb af p s)) = getpass_getpass s
   \<and> builtins_print (snd (run_automated_deployment_v2 d tb af p s)) = builtins_print s"
proof -
  have i: "patch_points (snd (run_interactive d p s)) = patch_points s" by (rule run_interactive_keeps)
  have a: "builtins_input (snd R) = builtins_input s
   \<and> getpass_getpass (snd R) = getpass_getpass s
   \<and> builtins_print (snd R) = builtins_print s"
    if R: "R = then_do (announce d data s) (\<lambda>_ s1.
                 v2_finally d (builtins_input s1) (getpass_getpass s1) (builtins_print s1)
                   (v2_except d tb
                      (v2_try d p
                         (s1\<lparr>original_print := builtins_print s1,
                             captured_vm_uuid := None, captured_task_uuid := None\<rparr>))))" for R data
  proof (cases "announce d data s")
    case (Pair r s1)
    with announce_keeps[of d data s] have s1: "patch_points s1 = patch_points s" by simp
    show ?thesis
    proof (cases r)
      case (Inl e)
      with Pair R s1 show ?thesis by (simp add: then_do_def patch_points_def)
    next
      case (Inr u)
      with v2_finally_restores[of d "builtins_input s1" "getpass_getpass s1" "builtins_print s1"]
        Pair R s1
      show ?thesis by (simp add: then_do_def patch_points_def)
    qed
  qed
  show ?thesis
  proof (cases af)
    case None
    with i show ?thesis by (simp add: run_automated_deployment_v2_def patch_points_def)
  next
    case (Some data)
    show ?thesis
    proof (cases "data = []")
      case True
      with Some i show ?thesis by (simp add: run_automated_deployment_v2_def patch_points_def)
    next
      case False
      with Some a[OF refl, of data] show ?thesis by (simp add: run_automated_deployment_v2_def)
    qed
  qed
qed

text \<open>
  Claim C9. After a run of the in-process strategy, of the third or of the second
  revision, the bindings of \<^verbatim>\<open>builtins.input\<close>, \<^verbatim>\<open>getpass.getpass\<close> and
  \<^verbatim>\<open>builtins.print\<close> are those from before the run, whatever the driven program did
  and whether the run returned or raised, with or without an automation request.
\<close>

theorem run_restores_prompt_primitives:
  "builtins_input (snd (run_automated_deployment_v3 d af p s)) = builtins_input s
   \<and> getpass_getpass (snd (run_automated_deployment_v3 d af p s)) = getpass_getpass s
   \<and> builtins_print (snd (run_automated_deployment_v3 d af p s)) = builtins_print s
   \<and> builtins_input (snd (run_automated_deployment_v2 d tb af p s)) = builtins_input s
   \<and> getpass_getpass (snd (run_automated_deployment_v2 d tb af p s)) = getpass_getpass s
   \<and> builtins_print (snd (run_automated_deployment_v2 d tb af p s)) = builtins_print s"
  using v3_restores [of d af p s] v2_restores [of d tb af p s] by simp

subsection \<open>The answer queue\<close>

lemma automated_input_exhausted:
  "builtins_input s = Automated_input \<Longrightarrow> inputs_queue s = [] \<Longrightarrow>
   call_input d Automated_input prompt s = (Inl RecursionError, s)"
  by (induction d) (simp_all add: automated_input_def)

lemma automated_input_pops:
  assumes "builtins_print s = Builtin_print" and "inputs_queue s = a # rest"
  shows "call_input (Suc (Suc d)) Automated_input prompt s =
           (Inr a, s\<lparr>inputs_queue := rest, stdout := stdout s @ [prompt @ a]\<rparr>)"
  using assms
  by (simp add: automated_input_def py_print_def builtin_print_def then_do_def)

text \<open>
  Claim C4. With answers in the queue the substitute pops the front and echoes prompt
  and answer (\<open>automated_input_pops\<close>). With the queue empty it calls
  \<^verbatim>\<open>input(prompt)\<close>, and that name is bound to the substitute itself for as long as
  the wrapper runs the driven program (\<open>automated_input_exhausted\<close>). In the run
  below the third question is never put to the terminal: the line typed there stays
  unread, the call ends in \<^verbatim>\<open>RecursionError\<close> and the wrapper returns 1.
\<close>

theorem automated_input_exhausted_recursion:
  "fst (run_automated_deployment_v3 1000 (Some request) asks_three_times fresh_process) = Inr 1
   \<and> stdout (snd (run_automated_deployment_v3 1000 (Some request) asks_three_times fresh_process)) =
       [''>>> Running VM deployment in automation mode...'',
        ''   VM Name: win-01'', ''>>> Password automation configured:'',
        ''   VM Admin Password: *******'',
        ''   Prism Central Password: **********'',
        ''>>> Patched input functions for automation'',
        ''Enter VM name: win-01'', ''Proceed with deployment? (y/n): y'',
        ''[ERROR] Error during automated deployment: maximum recursion depth exceeded'',
        ''>>> Restored original input functions'']
   \<and> terminal (snd (run_automated_deployment_v3 1000 (Some request) asks_three_times fresh_process)) =
       [''typed by hand'']
   \<and> py_input 1000 ''Press Enter to exit'' exhausted_process = (Inl RecursionError, exhausted_process)"
  by code_simp

subsection \<open>The print substitute of the second revision\<close>

text \<open>
  \<^verbatim>\<open>capture_print\<close> calls \<^verbatim>\<open>print\<close> for its own debug line, and that name is bound to
  \<^verbatim>\<open>capture_print\<close> while the wrapper runs. A text with one of the keywords keeps it under
  \<^verbatim>\<open>repr\<close>, so the call for the debug line never returns normally, and the statements
  that assign \<^verbatim>\<open>vm_uuid\<close> and \<^verbatim>\<open>task_uuid\<close> are reached only for a text without the labels:
  the second revision never stores an identifier. A text without a keyword goes to the
  saved function unchanged.
\<close>

lemma py_in_sublist: "py_in needle hay = sublist needle hay"
  by (induction hay) (simp_all add: sublist_Cons_right)

lemma concat_escape_id:
  "\<forall>c \<in> set k. f c = [c] \<Longrightarrow> concat (map f k) = k"
  by (induction k) simp_all

lemma sublist_concat_map:
  assumes "sublist k m" and "\<forall>c \<in> set k. f c = [c]"
  shows "sublist k (concat (map f m))"
proof -
  from assms(1) obtain ps ss where "m = ps @ k @ ss" unfolding sublist_def by blast
  then have "concat (map f m) = concat (map f ps) @ k @ concat (map f ss)"
    using concat_escape_id[OF assms(2)] by simp
  then show ?thesis unfolding sublist_def by blast
qed

lemma sublist_py_repr:
  assumes k: "sublist k m"
      and plain: "\<forall>c \<in> set k. repr_escape (CHR 0x27) c = [c] \<and> repr_escape (CHR 0x22) c = [c]"
  shows "sublist k (pre @ py_repr m)"
proof -
  define q where "q = (if CHR 0x27 \<in> set m \<and> CHR 0x22 \<notin> set m then CHR 0x22 else CHR 0x27)"
  have "\<forall>c \<in> set k. repr_escape q c = [c]" using plain by (simp add: q_def)
  from sublist_concat_map[OF k this]
  obtain a b where ab: "concat (map (repr_escape q) m) = a @ k @ b" unfolding sublist_def by blast
  have "py_repr m = q # concat (map (repr_escape q) m) @ [q]"
    by (simp add: py_repr_def q_def Let_def)
  with ab have "pre @ py_repr m = (pre @ q # a) @ k @ (b @ [q])" by simp
  then show ?thesis unfolding sublist_def by blast
qed


lemma keyword_survives_repr:
  assumes "has_uuid_keyword msg"
  shows "has_uuid_keyword (pre @ py_repr msg)"
proof -
  have 1: "py_in ''VM UUID'' (pre @ py_repr msg)" if "py_in ''VM UUID'' msg"
    using that unfolding py_in_sublist
    by (rule sublist_py_repr) (simp add: repr_escape_def)
  have 2: "py_in ''Task UUID'' (pre @ py_repr msg)" if "py_in ''Task UUID'' msg"
    using that unfolding py_in_sublist
    by (rule sublist_py_repr) (simp add: repr_escape_def)
  have 3: "py_in ''UUID:'' (pre @ py_repr msg)" if "py_in ''UUID:'' msg"
    using that unfolding py_in_sublist
    by (rule sublist_py_repr) (simp add: repr_escape_def)
  from assms 1 2 3 show ?thesis by (auto simp: has_uuid_keyword_def)
qed

lemma label_needs_keyword:
  "py_in ''VM UUID:'' msg \<Longrightarrow> has_uuid_keyword msg"
  "py_in ''Task UUID:'' msg \<Longrightarrow> has_uuid_keyword msg"
proof -
  have a: "sublist ''VM UUID'' msg" if "sublist ''VM UUID:'' msg"
  proof -
    from that obtain ps ss where "msg = ps @ ''VM UUID:'' @ ss" unfolding sublist_def by blast
    then have "msg = ps @ ''VM UUID'' @ ('':'' @ ss)" by simp
    then show ?thesis unfolding sublist_def by blast
  qed
  have b: "sublist ''Task UUID'' msg" if "sublist ''Task UUID:'' msg"
  proof -
    from that obtain ps ss where "msg = ps @ ''Task UUID:'' @ ss" unfolding sublist_def by blast
    then have "msg = ps @ ''Task UUID'' @ ('':'' @ ss)" by simp
    then show ?thesis unfolding sublist_def by blast
  qed
  show "py_in ''VM UUID:'' msg \<Longrightarrow> has_uuid_keyword msg"
    using a by (simp add: has_uuid_keyword_def py_in_sublist)
  show "py_in ''Task UUID:'' msg \<Longrightarrow> has_uuid_keyword msg"
    using b by (simp add: has_uuid_keyword_def py_in_sublist)
qed

lemma capture_print_with_keyword:
  assumes "has_uuid_keyword msg"
      and "pr (''[DEBUG] Captured print: '' @ py_repr msg) s = (Inl e, s1)"
  shows "capture_print pr orig msg s = (Inl e, s1)"
  using assms by (simp add: capture_print_def has_uuid_keyword_def then_do_def)

lemma capture_print_without_keyword:
  assumes "\<not> has_uuid_keyword msg"
  shows "capture_print pr orig msg s = orig msg s"
proof -
  from assms label_needs_keyword have "\<not> py_in ''VM UUID:'' msg" "\<not> py_in ''Task UUID:'' msg"
    by blast+
  with assms show ?thesis by (simp add: capture_print_def has_uuid_keyword_def then_do_def)
qed

lemma capture_print_never_stores:
  "builtins_print s = Capture_print \<Longrightarrow>
   captured (snd (call_print d f msg s)) = captured s
   \<and> (f = Capture_print \<and> has_uuid_keyword msg \<longrightarrow>
        (\<exists>e. fst (call_print d f msg s) = Inl e))"
proof (induction d arbitrary: f msg s)
  case 0
  show ?case by simp
next
  case (Suc d)
  show ?case
  proof (cases f)
    case Builtin_print
    then show ?thesis by (simp add: builtin_print_def captured_def)
  next
    case Capture_print
    show ?thesis
    proof (cases "has_uuid_keyword msg")
      case True
      let ?m = "''[DEBUG] Captured print: '' @ py_repr msg"
      have kw: "has_uuid_keyword ?m" using True by (rule keyword_survives_repr)
      from Suc.IH[OF Suc.prems, of Capture_print ?m] kw
      obtain e where e: "fst (call_print d Capture_print ?m s) = Inl e"
        and c: "captured (snd (call_print d Capture_print ?m s)) = captured s" by blast
      then have "call_print d (builtins_print s) ?m s = (Inl e, snd (call_print d Capture_print ?m s))"
        using Suc.prems by (metis prod.collapse)
      from capture_print_with_keyword[OF True, of "\<lambda>m t. call_print d (builtins_print t) m t", OF this]
      show ?thesis using Capture_print c by simp
    next
      case False
      from Suc.IH[OF Suc.prems, of "original_print s" msg]
      have "captured (snd (call_print d (original_print s) msg s)) = captured s" by blast
      with False Capture_print show ?thesis by (simp add: capture_print_without_keyword)
    qed
  qed
qed


subsection \<open>The secret resolver\<close>




end
